theory Spec2Isabelle
  imports Main "HOL-Library.Word" "HOL-Library.Code_Target_Nat"
begin

unbundle bit_operations_syntax

section \<open>Data model\<close>

type_synonym byte = "8 word"

text \<open>
  The error values the package returns. \<open>ErrIPv6NotImplemented\<close>, \<open>ErrInvalidIPAddress\<close>
  and \<open>ErrNotImplemented\<close> are exported sentinels of the package that the two build
  variants modelled here only refer to; \<open>ErrUnexpectedEOF\<close> is \<open>io.ErrUnexpectedEOF\<close>,
  \<open>ErrTooLong\<close> is \<open>bufio.ErrTooLong\<close>, and \<open>OSError\<close> stands for any failure
  reported by the operating system when a file is opened or read.
\<close>

datatype error =
    ErrNotImplemented
  | ErrIPv6NotImplemented
  | ErrInvalidIPAddress
  | errInvalidMPTCPEntry
  | errInvalidMPTCPTable
  | ErrUnexpectedEOF
  | ErrTooLong
  | OSError string

section \<open>Formatting: \<open>fmt.Sprintf\<close> with the verb \<open>%02x\<close> on a byte\<close>

definition hexdigit :: "nat \<Rightarrow> char" where
  "hexdigit n = ''0123456789abcdef'' ! n"

definition hex02x :: "byte \<Rightarrow> string" where
  "hex02x b = [hexdigit (unat b div 16), hexdigit (unat b mod 16)]"

section \<open>Port encoding\<close>

text \<open>\<open>binary.LittleEndian.PutUint16\<close>: \<open>b[0] = byte(v)\<close>, \<open>b[1] = byte(v >> 8)\<close>.\<close>

definition PutUint16 :: "16 word \<Rightarrow> byte list" where
  "PutUint16 v = [ucast v, ucast (drop_bit 8 v)]"

definition u16PortToHex :: "16 word \<Rightarrow> string" where
  "u16PortToHex port =
     (let portBuf = PutUint16 port
      in hex02x (portBuf ! 1) @ hex02x (portBuf ! 0))"

section \<open>Strings: \<open>strings.ToUpper\<close> and \<open>net.JoinHostPort\<close>\<close>

text \<open>
  Go strings are byte sequences, modelled as \<open>string\<close> (a list of 8-bit \<open>char\<close>).
  \<open>strings.ToUpper\<close> maps the bytes \<open>a\<close>..\<open>z\<close> to \<open>A\<close>..\<open>Z\<close> and leaves every
  other ASCII byte alone. On a string with a byte above \<open>0x7F\<close> Go decodes UTF-8 and
  maps runes; that part is not modelled (such bytes are left alone here), and
  \<open>checkMPTCP\<close> only ever passes hexadecimal digits and a colon.
\<close>

definition toUpperByte :: "char \<Rightarrow> char" where
  "toUpperByte c =
     (if 97 \<le> (of_char c :: nat) \<and> (of_char c :: nat) \<le> 122
      then char_of ((of_char c :: nat) - 32) else c)"

definition ToUpper :: "string \<Rightarrow> string" where
  "ToUpper s = map toUpperByte s"

text \<open>
  \<open>net.JoinHostPort\<close>: a host with a colon (or, in the releases of the code's time,
  a percent sign) is put in square brackets.
\<close>

definition JoinHostPort :: "string \<Rightarrow> string \<Rightarrow> string" where
  "JoinHostPort host port =
     (if CHR '':'' \<in> set host \<or> CHR ''%'' \<in> set host
      then ''['' @ host @ '']:'' @ port
      else host @ '':'' @ port)"

section \<open>IP addresses: the parts of package \<open>net\<close> that \<open>hostToHex\<close> calls\<close>

text \<open>
  A \<open>net.IP\<close> is a byte slice; \<open>nil\<close> is the empty list. The definitions of this
  section follow the Go standard library (package \<open>net\<close>), which is not part of the
  repository: \<open>IPv4\<close>, \<open>To4\<close>, \<open>To16\<close> and the textual parser \<open>ParseIP\<close> with its
  helpers \<open>dtoi\<close>, \<open>xtoi\<close>, \<open>parseIPv4\<close> and \<open>parseIPv6\<close>.
\<close>

type_synonym IP = "byte list"

definition IPv4len :: nat where "IPv4len = 4"
definition IPv6len :: nat where "IPv6len = 16"

definition v4InV6Prefix :: "byte list" where
  "v4InV6Prefix = [0, 0, 0, 0, 0, 0, 0, 0, 0, 0, 0xff, 0xff]"

definition IPv4 :: "byte \<Rightarrow> byte \<Rightarrow> byte \<Rightarrow> byte \<Rightarrow> IP" where
  "IPv4 a b c d = v4InV6Prefix @ [a, b, c, d]"

definition isZeros :: "byte list \<Rightarrow> bool" where
  "isZeros p = list_all (\<lambda>b. b = 0) p"

definition To4 :: "IP \<Rightarrow> IP" where
  "To4 ip =
     (if length ip = IPv4len then ip
      else if length ip = IPv6len \<and> isZeros (take 10 ip) \<and> ip ! 10 = 0xff \<and> ip ! 11 = 0xff
      then drop 12 ip
      else [])"

definition To16 :: "IP \<Rightarrow> IP" where
  "To16 ip =
     (if length ip = IPv4len then IPv4 (ip ! 0) (ip ! 1) (ip ! 2) (ip ! 3)
      else if length ip = IPv6len then ip
      else [])"

definition big :: nat where "big = 0xFFFFFF"

text \<open>\<open>dtoi\<close>: a decimal prefix of the string, as (value, bytes consumed, ok).\<close>

fun dtoi_loop :: "nat \<Rightarrow> nat \<Rightarrow> string \<Rightarrow> nat \<times> nat \<times> bool" where
  "dtoi_loop n i [] = (if i = 0 then (0, 0, False) else (n, i, True))"
| "dtoi_loop n i (c # cs) =
     (if 48 \<le> (of_char c :: nat) \<and> (of_char c :: nat) \<le> 57
      then (let n' = n * 10 + ((of_char c :: nat) - 48)
            in if n' \<ge> big then (big, i, False) else dtoi_loop n' (i + 1) cs)
      else if i = 0 then (0, 0, False) else (n, i, True))"

definition dtoi :: "string \<Rightarrow> nat \<times> nat \<times> bool" where
  "dtoi s = dtoi_loop 0 0 s"

text \<open>\<open>xtoi\<close>: a hexadecimal prefix of the string, as (value, bytes consumed, ok).\<close>

definition xdigit :: "char \<Rightarrow> nat option" where
  "xdigit c =
     (let k = (of_char c :: nat)
      in if 48 \<le> k \<and> k \<le> 57 then Some (k - 48)
         else if 97 \<le> k \<and> k \<le> 102 then Some (k - 97 + 10)
         else if 65 \<le> k \<and> k \<le> 70 then Some (k - 65 + 10)
         else None)"

fun xtoi_loop :: "nat \<Rightarrow> nat \<Rightarrow> string \<Rightarrow> nat \<times> nat \<times> bool" where
  "xtoi_loop n i [] = (if i = 0 then (0, i, False) else (n, i, True))"
| "xtoi_loop n i (c # cs) =
     (case xdigit c of
        Some v \<Rightarrow>
          (let n' = n * 16 + v
           in if n' \<ge> big then (0, i, False) else xtoi_loop n' (i + 1) cs)
      | None \<Rightarrow> if i = 0 then (0, i, False) else (n, i, True))"

definition xtoi :: "string \<Rightarrow> nat \<times> nat \<times> bool" where
  "xtoi s = xtoi_loop 0 0 s"

text \<open>
  \<open>parseIPv4\<close>: four decimal fields of at most 255 separated by dots, and nothing
  else. The loop over the four fields is a recursion on the field index \<open>i\<close> with the
  bytes \<open>p\<close> read so far. (Go 1.17 and later also reject a field of several digits
  that starts with \<open>0\<close>; the releases of the code's time accept it, as here.)
\<close>

function parseIPv4_loop :: "nat \<Rightarrow> byte list \<Rightarrow> string \<Rightarrow> IP" where
  "parseIPv4_loop i p s =
     (if \<not> i < IPv4len
      then (if s \<noteq> [] then [] else IPv4 (p ! 0) (p ! 1) (p ! 2) (p ! 3))
      else if s = [] then []
      else if i > 0 \<and> hd s \<noteq> CHR ''.'' then []
      else (let s1 = (if i > 0 then tl s else s)
            in case dtoi s1 of (n, c, ok) \<Rightarrow>
                 if \<not> ok \<or> n > 0xFF then []
                 else parseIPv4_loop (i + 1) (p @ [of_nat n]) (drop c s1)))"
  by pat_completeness auto
termination
  by (relation "measure (\<lambda>(i, p, s). IPv4len - i)") (auto simp: IPv4len_def)

definition parseIPv4 :: "string \<Rightarrow> IP" where
  "parseIPv4 s = parseIPv4_loop 0 [] s"

text \<open>
  \<open>parseIPv6\<close>: groups of hexadecimal digits separated by colons, at most one
  \<open>::\<close> (the ellipsis) and possibly a trailing dotted IPv4 address. The main loop
  carries the address \<open>ip\<close>, the write position \<open>i\<close>, the position of the ellipsis
  (\<open>-1\<close> for none) and the rest of the string; \<open>None\<close> is the loop's \<open>return nil\<close>,
  \<open>Some\<close> the state at its \<open>break\<close> or normal end.
\<close>

function parseIPv6_loop ::
  "IP \<Rightarrow> nat \<Rightarrow> int \<Rightarrow> string \<Rightarrow> (IP \<times> nat \<times> int \<times> string) option" where
  "parseIPv6_loop ip i ellipsis s =
     (if \<not> i < IPv6len then Some (ip, i, ellipsis, s)
      else case xtoi s of (n, c, ok) \<Rightarrow>
        if \<not> ok \<or> n > 0xFFFF then None
        else if c < length s \<and> s ! c = CHR ''.'' then
          (if ellipsis < 0 \<and> i \<noteq> IPv6len - IPv4len then None
           else if i + IPv4len > IPv6len then None
           else (let ip4 = parseIPv4 s
                 in if ip4 = [] then None
                    else Some (ip[i := ip4 ! 12, i + 1 := ip4 ! 13,
                                  i + 2 := ip4 ! 14, i + 3 := ip4 ! 15],
                               i + IPv4len, ellipsis, [])))
        else (let ip1 = ip[i := of_nat (n div 256), i + 1 := of_nat n];
                  i1 = i + 2;
                  s1 = drop c s
              in if s1 = [] then Some (ip1, i1, ellipsis, s1)
                 else if hd s1 \<noteq> CHR '':'' \<or> length s1 = 1 then None
                 else (let s2 = tl s1
                       in if hd s2 = CHR '':''
                          then (if ellipsis \<ge> 0 then None
                                else (let s3 = tl s2
                                      in if s3 = [] then Some (ip1, i1, int i1, s3)
                                         else parseIPv6_loop ip1 i1 (int i1) s3))
                          else parseIPv6_loop ip1 i1 ellipsis s2)))"
  by pat_completeness auto
termination
  by (relation "measure (\<lambda>(ip, i, e, s). IPv6len - i)") (auto simp: IPv6len_def)

text \<open>
  Expanding the ellipsis: the groups written after \<open>::\<close> move to the end of the
  address and the gap is zeroed, by the two descending loops of the source.
\<close>

definition expandEllipsis :: "IP \<Rightarrow> nat \<Rightarrow> nat \<Rightarrow> IP" where
  "expandEllipsis ip i ellipsis =
     (let n = IPv6len - i;
          ip1 = fold (\<lambda>j a. a[j + n := a ! j]) (rev [ellipsis..<i]) ip
      in fold (\<lambda>j a. a[j := 0]) (rev [ellipsis..<ellipsis + n]) ip1)"

definition parseIPv6 :: "string \<Rightarrow> IP" where
  "parseIPv6 s =
     (let ip = replicate IPv6len 0;
          lead = (length s \<ge> 2 \<and> s ! 0 = CHR '':'' \<and> s ! 1 = CHR '':'');
          ellipsis = (if lead then 0 else - 1);
          s0 = (if lead then drop 2 s else s)
      in if lead \<and> s0 = [] then ip
         else case parseIPv6_loop ip 0 ellipsis s0 of
                None \<Rightarrow> []
              | Some (ip1, i, ellipsis1, s1) \<Rightarrow>
                  if s1 \<noteq> [] then []
                  else if i < IPv6len
                  then (if ellipsis1 < 0 then [] else expandEllipsis ip1 i (nat ellipsis1))
                  else if ellipsis1 \<ge> 0 then []
                  else ip1)"

text \<open>
  \<open>ParseIP\<close> looks for the first dot or colon and hands the whole string to the
  parser of that family; a string with neither is not an address.
\<close>

fun ParseIP_scan :: "string \<Rightarrow> string \<Rightarrow> IP" where
  "ParseIP_scan s [] = []"
| "ParseIP_scan s (c # cs) =
     (if c = CHR ''.'' then parseIPv4 s
      else if c = CHR '':'' then parseIPv6 s
      else ParseIP_scan s cs)"

definition ParseIP :: "string \<Rightarrow> IP" where
  "ParseIP s = ParseIP_scan s s"

section \<open>The address encoder\<close>

definition hostToHex :: "string \<Rightarrow> error + string" where
  "hostToHex host =
     (let ip = ParseIP host;
          ip4 = To4 ip
      in if ip4 \<noteq> [] \<and> length ip4 = IPv4len
         then Inr (hex02x (ip4 ! 3) @ hex02x (ip4 ! 2) @ hex02x (ip4 ! 1) @ hex02x (ip4 ! 0))
         else (let ip6 = To16 ip
               in if ip6 \<noteq> [] \<and> length ip6 = IPv6len
                  then Inl ErrIPv6NotImplemented
                  else Inl ErrInvalidIPAddress))"

text \<open>
  \<open>checkMPTCP\<close> (Linux). The lookup function is a package variable that tests swap
  out, so it is a parameter here; \<open>lookupMPTCPLinux\<close> below is its production value.
  A Go result \<open>(bool, error)\<close> is a pair whose second component is \<open>None\<close> for
  \<open>nil\<close>.
\<close>

definition checkMPTCP ::
  "(string \<Rightarrow> bool \<times> error option) \<Rightarrow> string \<Rightarrow> 16 word \<Rightarrow> bool \<times> error option" where
  "checkMPTCP lookup host port =
     (case hostToHex host of
        Inl err \<Rightarrow> (False, Some err)
      | Inr hexHost \<Rightarrow>
          (let hexHostPort = ToUpper (JoinHostPort hexHost (u16PortToHex port))
           in lookup hexHostPort))"

section \<open>Reading lines: \<open>bufio.Scanner\<close> with \<open>bufio.ScanLines\<close>\<close>

text \<open>
  An \<open>io.Reader\<close> is what it delivers: the bytes \<open>rdata\<close>, and then the condition
  it ends with, \<open>None\<close> for \<open>io.EOF\<close> and \<open>Some e\<close> for a read failure \<open>e\<close>.

  The definitions of this section follow the Go standard library (package \<open>bufio\<close>),
  which is not part of the repository. \<open>ScanLines\<close> is the split function: it
  returns how far to advance and the next line without its end-of-line marker, or no
  token when it needs more data.
\<close>

record reader =
  rdata :: string
  rerr :: "error option"

fun IndexByte :: "string \<Rightarrow> char \<Rightarrow> nat option" where
  "IndexByte [] c = None"
| "IndexByte (b # bs) c = (if b = c then Some 0 else map_option Suc (IndexByte bs c))"

definition dropCR :: "string \<Rightarrow> string" where
  "dropCR data = (if data \<noteq> [] \<and> last data = CHR 0x0D then butlast data else data)"

definition ScanLines :: "string \<Rightarrow> bool \<Rightarrow> nat \<times> string option" where
  "ScanLines data atEOF =
     (if atEOF \<and> data = [] then (0, None)
      else case IndexByte data (CHR 0x0A) of
             Some i \<Rightarrow> (i + 1, Some (dropCR (take i data)))
           | None \<Rightarrow> if atEOF then (length data, Some (dropCR data)) else (0, None))"

text \<open>
  The scanner holds at most \<open>MaxScanTokenSize\<close> bytes. Its state here is
  \<open>sc_pending\<close>, the bytes of the reader not yet handed out in a token, \<open>sc_end\<close>, how
  the reader ends after them, \<open>sc_token\<close>, the last token, and \<open>sc_err\<close>, the sticky
  error that \<open>Err()\<close> reports (\<open>None\<close> after a clean end of input).

  \<open>Scan\<close> fills the buffer and asks the split function for a token. While the reader
  can still fill the whole buffer, the split function sees the buffer's
  \<open>MaxScanTokenSize\<close> bytes and is told that more data may come; if it finds no line
  there, scanning stops with \<open>ErrTooLong\<close>. Once fewer bytes are left, the reader's
  end has been seen and the split function is told so: the rest is cut into lines,
  the last one possibly without a newline, and when nothing is left scanning stops
  with the reader's own error.
\<close>

definition MaxScanTokenSize :: nat where
  "MaxScanTokenSize = 64 * 1024"

record scanner =
  sc_pending :: string
  sc_end :: "error option"
  sc_token :: string
  sc_err :: "error option"

definition NewScanner :: "reader \<Rightarrow> scanner" where
  "NewScanner r = \<lparr>sc_pending = rdata r, sc_end = rerr r, sc_token = [], sc_err = None\<rparr>"

definition Scan :: "scanner \<Rightarrow> bool \<times> scanner" where
  "Scan s =
     (let full = (MaxScanTokenSize \<le> length (sc_pending s));
          buf = take MaxScanTokenSize (sc_pending s)
      in case ScanLines buf (\<not> full) of
           (advance, Some token) \<Rightarrow>
             (True, s\<lparr>sc_pending := drop advance (sc_pending s), sc_token := token\<rparr>)
         | (advance, None) \<Rightarrow>
             (False, s\<lparr>sc_pending := [], sc_token := [],
                       sc_err := (if full then Some ErrTooLong else sc_end s)\<rparr>))"

definition Bytes :: "scanner \<Rightarrow> string" where
  "Bytes s = sc_token s"

definition Text :: "scanner \<Rightarrow> string" where
  "Text s = sc_token s"

definition Err :: "scanner \<Rightarrow> error option" where
  "Err s = sc_err s"

section \<open>Splitting a line into fields: \<open>strings.Fields\<close>\<close>

text \<open>
  \<open>strings.Fields\<close> splits around runs of white space as \<open>unicode.IsSpace\<close> defines
  it. \<open>spaceRunes\<close> lists the UTF-8 encodings of those runes: the six ASCII ones,
  U+0085, U+00A0, U+1680, U+2000 to U+200A, U+2028, U+2029, U+202F, U+205F and
  U+3000. Every other byte belongs to a field. \<open>spaceWidth\<close> is the length of the
  white-space rune a string starts with, and 0 if it starts with none.
\<close>

definition spaceRunes :: "string list" where
  "spaceRunes =
     [[CHR 0x09], [CHR 0x0A], [CHR 0x0B], [CHR 0x0C], [CHR 0x0D], [CHR 0x20],
      [CHR 0xC2, CHR 0x85], [CHR 0xC2, CHR 0xA0],
      [CHR 0xE1, CHR 0x9A, CHR 0x80],
      [CHR 0xE2, CHR 0x80, CHR 0x80], [CHR 0xE2, CHR 0x80, CHR 0x81],
      [CHR 0xE2, CHR 0x80, CHR 0x82], [CHR 0xE2, CHR 0x80, CHR 0x83],
      [CHR 0xE2, CHR 0x80, CHR 0x84], [CHR 0xE2, CHR 0x80, CHR 0x85],
      [CHR 0xE2, CHR 0x80, CHR 0x86], [CHR 0xE2, CHR 0x80, CHR 0x87],
      [CHR 0xE2, CHR 0x80, CHR 0x88], [CHR 0xE2, CHR 0x80, CHR 0x89],
      [CHR 0xE2, CHR 0x80, CHR 0x8A],
      [CHR 0xE2, CHR 0x80, CHR 0xA8], [CHR 0xE2, CHR 0x80, CHR 0xA9],
      [CHR 0xE2, CHR 0x80, CHR 0xAF],
      [CHR 0xE2, CHR 0x81, CHR 0x9F],
      [CHR 0xE3, CHR 0x80, CHR 0x80]]"

definition spaceWidth :: "string \<Rightarrow> nat" where
  "spaceWidth s =
     (case find (\<lambda>w. take (length w) s = w) spaceRunes of
        None \<Rightarrow> 0
      | Some w \<Rightarrow> length w)"

fun fieldsFrom :: "string \<Rightarrow> string \<Rightarrow> string list" where
  "fieldsFrom cur [] = (if cur = [] then [] else [cur])"
| "fieldsFrom cur (c # cs) =
     (case spaceWidth (c # cs) of
        0 \<Rightarrow> fieldsFrom (cur @ [c]) cs
      | Suc k \<Rightarrow> (if cur = [] then [] else [cur]) @ fieldsFrom [] (drop k cs))"

definition Fields :: "string \<Rightarrow> string list" where
  "Fields s = fieldsFrom [] s"

section \<open>The connection table\<close>

definition mptcpTableColumns :: nat where
  "mptcpTableColumns = 10"

definition mptcpTableHeader :: string where
  "mptcpTableHeader =
     ''  sl  loc_tok  rem_tok  v6 local_address                         remote_address                        st ns tx_queue rx_queue inode''"

record mptcpTableEntry =
  IsIPv6 :: bool
  RemoteAddr :: string

definition newMPTCPTableEntry :: "string list \<Rightarrow> error + mptcpTableEntry" where
  "newMPTCPTableEntry flds =
     (if length flds \<noteq> mptcpTableColumns then Inl errInvalidMPTCPEntry
      else (let m = \<lparr>IsIPv6 = False, RemoteAddr = []\<rparr>;
                m1 = (if flds ! 3 = ''1'' then m\<lparr>IsIPv6 := True\<rparr> else m);
                m2 = m1\<lparr>RemoteAddr := flds ! 5\<rparr>
            in Inr m2))"

lemma IndexByte_less: "IndexByte data c = Some i \<Longrightarrow> i < length data"
  by (induction data arbitrary: i) (auto split: if_splits)

lemma Scan_consumes:
  assumes "Scan s = (True, s1)"
  shows "length (sc_pending s1) < length (sc_pending s)"
proof -
  let ?full = "MaxScanTokenSize \<le> length (sc_pending s)"
  let ?buf = "take MaxScanTokenSize (sc_pending s)"
  obtain advance t where sl: "ScanLines ?buf (\<not> ?full) = (advance, t)"
    by (cases "ScanLines ?buf (\<not> ?full)")
  from assms sl obtain token where t: "t = Some token"
    and s1: "s1 = s\<lparr>sc_pending := drop advance (sc_pending s), sc_token := token\<rparr>"
    by (cases t) (auto simp: Scan_def Let_def)
  have "0 < advance \<and> sc_pending s \<noteq> []"
    using sl t
    by (auto simp: ScanLines_def split: if_splits option.splits)
  then show ?thesis
    by (simp add: s1)
qed

text \<open>
  The loop of \<open>mptcpTableReaderLinux\<close>: one call of \<open>Scan\<close> per round. A successful
  \<open>Scan\<close> takes at least one byte off the input, which is why the loop ends.
\<close>

function scanRows :: "scanner \<Rightarrow> string \<Rightarrow> bool \<times> error option" where
  "scanRows scanner hexHostPort =
     (case Scan scanner of
        (ok, scanner1) \<Rightarrow>
          if \<not> ok then (False, None)
          else (case newMPTCPTableEntry (Fields (Text scanner1)) of
                  Inl err \<Rightarrow> (False, Some err)
                | Inr mptcpEntry \<Rightarrow>
                    if RemoteAddr mptcpEntry = hexHostPort then (True, None)
                    else scanRows scanner1 hexHostPort))"
  by pat_completeness auto
termination
  by (relation "measure (\<lambda>(scanner, hexHostPort). length (sc_pending scanner))")
     (auto dest: Scan_consumes [OF sym])

definition mptcpTableReaderLinux :: "reader \<Rightarrow> string \<Rightarrow> bool \<times> error option" where
  "mptcpTableReaderLinux r hexHostPort =
     (case Scan (NewScanner r) of
        (ok, scanner) \<Rightarrow>
          if \<not> ok then (False, Some ErrUnexpectedEOF)
          else if Bytes scanner \<noteq> mptcpTableHeader then (False, Some errInvalidMPTCPTable)
          else scanRows scanner hexHostPort)"

text \<open>
  \<open>lookupMPTCPLinux\<close> opens the table file and scans it. What \<open>os.Open\<close> returns
  for the file is the parameter \<open>procMPTCP\<close>: an error, or the file as a reader.
\<close>

definition lookupMPTCPLinux :: "error + reader \<Rightarrow> string \<Rightarrow> bool \<times> error option" where
  "lookupMPTCPLinux procMPTCP hexHostPort =
     (case procMPTCP of
        Inl err \<Rightarrow> (False, Some err)
      | Inr mptcpFile \<Rightarrow> mptcpTableReaderLinux mptcpFile hexHostPort)"

text \<open>
  \<open>mptcpEnabled\<close> (Linux) asks the file system for the table file. What \<open>os.Stat\<close>
  returns for it is the parameter \<open>stat\<close> (\<open>None\<close> for no error), and \<open>os.IsNotExist\<close>
  is the parameter \<open>IsNotExist\<close>.
\<close>

definition mptcpEnabled :: "error option \<Rightarrow> (error \<Rightarrow> bool) \<Rightarrow> bool \<times> error option" where
  "mptcpEnabled stat IsNotExist =
     (case stat of
        None \<Rightarrow> (True, None)
      | Some err \<Rightarrow> if IsNotExist err then (False, None) else (False, Some err))"

text \<open>
  The lines a scanner hands out: the tokens of its successive successful calls of
  \<open>Scan\<close>, up to the call that returns \<open>false\<close>. They are the header and the rows that
  the table scanner sees, and properties of the rows of a table are stated over this
  list. A line of \<open>MaxScanTokenSize\<close> bytes or more is not among them: \<open>Scan\<close> stops
  there, as it does at the end of the input.
\<close>

function scannerLines :: "scanner \<Rightarrow> string list" where
  "scannerLines s =
     (case Scan s of
        (ok, s1) \<Rightarrow> if \<not> ok then [] else Text s1 # scannerLines s1)"
  by pat_completeness auto
termination
  by (relation "measure (\<lambda>s. length (sc_pending s))")
     (auto dest: Scan_consumes [OF sym])

section \<open>The build for other platforms\<close>

definition checkMPTCP_others :: "string \<Rightarrow> 16 word \<Rightarrow> bool \<times> error option" where
  "checkMPTCP_others host port = (False, Some ErrNotImplemented)"

definition mptcpEnabled_others :: "bool \<times> error option" where
  "mptcpEnabled_others = (False, None)"

section \<open>Sample tables\<close>

text \<open>
  Rows as the kernel prints them, and byte streams built from them, for the concrete
  instances below. \<open>rowA\<close> is a connection to 10.0.2.2:51112, \<open>rowB\<close> one to
  127.0.0.1:80, \<open>rowB_lower\<close> is \<open>rowB\<close> with the remote address in lower case, and
  \<open>rowShort\<close> is \<open>rowB\<close> without its last field.
\<close>

definition rowA :: string where
  "rowA = ''   0: B9A8041  84B5E72C  0 0F02000A:0016                         0202000A:C7A8                         01 02 00000000:00000000 12401''"

definition rowB :: string where
  "rowB = ''   1: 1C3D5E7F 2A4B6C8D  0 0F02000A:9C40                         0100007F:0050                         01 02 00000000:00000000 12402''"

definition rowB_lower :: string where
  "rowB_lower = ''   1: 1C3D5E7F 2A4B6C8D  0 0F02000A:9C40                         0100007f:0050                         01 02 00000000:00000000 12402''"

definition rowShort :: string where
  "rowShort = ''   1: 1C3D5E7F 2A4B6C8D  0 0F02000A:9C40                         0100007F:0050                         01 02 00000000:00000000''"

definition newline :: string where
  "newline = [CHR 0x0A]"

definition tableFound :: string where
  "tableFound = mptcpTableHeader @ newline @ rowA @ newline @ rowB @ newline @ rowShort @ newline"

definition tableBad :: string where
  "tableBad = mptcpTableHeader @ newline @ rowA @ newline @ rowShort @ newline @ rowB @ newline"

definition tableNone :: string where
  "tableNone = mptcpTableHeader @ newline @ rowA @ newline"

definition tableLower :: string where
  "tableLower = mptcpTableHeader @ newline @ rowA @ newline @ rowB_lower @ newline"

definition tableBlank :: string where
  "tableBlank = mptcpTableHeader @ newline @ rowA @ newline @ newline"

definition tableSpaces :: string where
  "tableSpaces = mptcpTableHeader @ newline @ rowA @ newline @ [CHR 0x20, CHR 0x09, CHR 0x20] @ newline @ rowB @ newline"

section \<open>Bytes of a port\<close>

lemma unat_ucast_low_byte: "unat (ucast (p :: 16 word) :: byte) = unat p mod 256"
  by (simp add: unsigned_ucast_eq take_bit_eq_mod)

lemma unat_drop_bit_8: "unat (drop_bit 8 (p :: 16 word)) = unat p div 256"
proof -
  have "unat (drop_bit 8 p) = drop_bit 8 (unat p)"
    by (rule unat_drop_bit_eq)
  also have "\<dots> = unat p div 2 ^ 8"
    by (rule drop_bit_eq_div)
  finally show ?thesis
    by simp
qed

lemma unat_ucast_high_byte: "unat (ucast (drop_bit 8 (p :: 16 word)) :: byte) = unat p div 256"
proof -
  have "unat p < 65536"
    using unsigned_less [of p, where ?'a = nat] by simp
  then have "unat p div 256 < 256"
    by simp
  then show ?thesis
    unfolding unsigned_ucast_eq take_bit_eq_mod unat_drop_bit_8 by simp
qed

lemma u16PortToHex_bytes:
  "u16PortToHex p = hex02x (ucast (drop_bit 8 p)) @ hex02x (ucast p)"
  by (simp add: u16PortToHex_def PutUint16_def)

section \<open>Facts about the encoder\<close>

lemma hexdigit_in_digits: "n < 16 \<Longrightarrow> hexdigit n \<in> set ''0123456789abcdef''"
  unfolding hexdigit_def by (rule nth_mem) simp

lemma hex02x_no_separator: "CHR '':'' \<notin> set (hex02x b) \<and> CHR ''%'' \<notin> set (hex02x b)"
proof -
  have hi: "unat b div 16 < 16"
    using unsigned_less [of b, where ?'a = nat] by simp
  have lo: "unat b mod 16 < 16"
    by simp
  have "hexdigit (unat b div 16) \<noteq> CHR '':'' \<and> hexdigit (unat b div 16) \<noteq> CHR ''%''"
    using hexdigit_in_digits [OF hi] by auto
  moreover have "hexdigit (unat b mod 16) \<noteq> CHR '':'' \<and> hexdigit (unat b mod 16) \<noteq> CHR ''%''"
    using hexdigit_in_digits [OF lo] by auto
  ultimately show ?thesis
    by (auto simp: hex02x_def)
qed

lemma JoinHostPort_hex:
  "JoinHostPort (hex02x d @ hex02x c @ hex02x b @ hex02x a) port =
   hex02x d @ hex02x c @ hex02x b @ hex02x a @ '':'' @ port"
  using hex02x_no_separator [of a] hex02x_no_separator [of b]
    hex02x_no_separator [of c] hex02x_no_separator [of d]
  by (simp add: JoinHostPort_def)

lemma To4_IPv4: "To4 (IPv4 a b c d) = [a, b, c, d]"
  by (simp add: To4_def IPv4_def v4InV6Prefix_def isZeros_def IPv4len_def IPv6len_def)

lemma hostToHex_IPv4:
  assumes "ParseIP host = IPv4 a b c d"
  shows "hostToHex host = Inr (hex02x d @ hex02x c @ hex02x b @ hex02x a)"
  by (simp add: hostToHex_def assms To4_IPv4 IPv4len_def)

lemma length16E:
  assumes "length (ip :: byte list) = 16"
  obtains x0 x1 x2 x3 x4 x5 x6 x7 x8 x9 x10 x11 x12 x13 x14 x15
  where "ip = [x0, x1, x2, x3, x4, x5, x6, x7, x8, x9, x10, x11, x12, x13, x14, x15]"
proof -
  from assms have "length ip = Suc (Suc (Suc (Suc (Suc (Suc (Suc (Suc (Suc (Suc (Suc (Suc
    (Suc (Suc (Suc (Suc 0)))))))))))))))"
    by simp
  then show ?thesis
    by (auto simp: length_Suc_conv intro: that)
qed

lemma To4_of_16:
  assumes "length ip = 16"
  shows "To4 ip = (if take 12 ip = v4InV6Prefix then drop 12 ip else [])"
proof -
  from assms obtain x0 x1 x2 x3 x4 x5 x6 x7 x8 x9 x10 x11 x12 x13 x14 x15
    where ip: "ip = [x0, x1, x2, x3, x4, x5, x6, x7, x8, x9, x10, x11, x12, x13, x14, x15]"
    by (rule length16E)
  show ?thesis
    unfolding ip
    by (auto simp: To4_def v4InV6Prefix_def isZeros_def IPv4len_def IPv6len_def)
qed

lemma hostToHex_cases:
  "hostToHex host =
     (let ip = ParseIP host
      in if length ip = 4
         then Inr (hex02x (ip ! 3) @ hex02x (ip ! 2) @ hex02x (ip ! 1) @ hex02x (ip ! 0))
         else if length ip = 16
         then (if take 12 ip = v4InV6Prefix
               then Inr (hex02x (ip ! 15) @ hex02x (ip ! 14) @ hex02x (ip ! 13) @ hex02x (ip ! 12))
               else Inl ErrIPv6NotImplemented)
         else Inl ErrInvalidIPAddress)"
proof -
  consider "length (ParseIP host) = 4" | "length (ParseIP host) = 16"
    | "length (ParseIP host) \<noteq> 4 \<and> length (ParseIP host) \<noteq> 16"
    by blast
  then show ?thesis
  proof cases
    case 1
    then show ?thesis
      by (auto simp: hostToHex_def To4_def IPv4len_def Let_def)
  next
    case 2
    then show ?thesis
      by (auto simp: hostToHex_def To4_of_16 To16_def IPv4len_def IPv6len_def Let_def)
  next
    case 3
    then show ?thesis
      by (auto simp: hostToHex_def To4_def To16_def IPv4len_def IPv6len_def Let_def)
  qed
qed

text \<open>
  Upper-case hexadecimal digits, to spell keys out; not part of the program.
\<close>

definition hexdigitUpper :: "nat \<Rightarrow> char" where
  "hexdigitUpper n = ''0123456789ABCDEF'' ! n"

lemma toUpperByte_hexdigits: "\<forall>n \<in> set [0..<16]. toUpperByte (hexdigit n) = hexdigitUpper n"
  by code_simp

lemma toUpperByte_hexdigit: "n < 16 \<Longrightarrow> toUpperByte (hexdigit n) = hexdigitUpper n"
  using toUpperByte_hexdigits by simp

lemma ToUpper_append: "ToUpper (xs @ ys) = ToUpper xs @ ToUpper ys"
  by (simp add: ToUpper_def)

lemma JoinHostPort_port: "JoinHostPort host port = JoinHostPort host [] @ port"
  by (simp add: JoinHostPort_def)

section \<open>Dotted-decimal addresses\<close>

text \<open>
  The usual spelling of an IPv4 address: each octet in decimal without leading zeros,
  joined by dots. These two definitions are not part of the program; they name the
  hosts that the claims call valid IPv4 addresses. \<open>ParseIP\<close> reads every such host
  as the address of its octets.
\<close>

definition decimalDigit :: "nat \<Rightarrow> char" where
  "decimalDigit n = ''0123456789'' ! n"

definition decimal :: "byte \<Rightarrow> string" where
  "decimal b =
     (let n = unat b
      in if n < 10 then [decimalDigit n]
         else if n < 100 then [decimalDigit (n div 10), decimalDigit (n mod 10)]
         else [decimalDigit (n div 100), decimalDigit (n div 10 mod 10), decimalDigit (n mod 10)])"

definition dotted :: "byte \<Rightarrow> byte \<Rightarrow> byte \<Rightarrow> byte \<Rightarrow> string" where
  "dotted a b c d = decimal a @ ''.'' @ decimal b @ ''.'' @ decimal c @ ''.'' @ decimal d"

lemma decimalDigit_codes: "\<forall>k \<in> set [0..<10]. (of_char (decimalDigit k) :: nat) = 48 + k"
  by code_simp

lemma of_char_decimalDigit: "k < 10 \<Longrightarrow> (of_char (decimalDigit k) :: nat) = 48 + k"
  using decimalDigit_codes by simp

lemma decimalDigit_plain:
  assumes "k < 10"
  shows "decimalDigit k \<noteq> CHR ''.''" and "decimalDigit k \<noteq> CHR '':''"
  using of_char_decimalDigit [OF assms] assms by auto

lemma dtoi_loop_digit:
  assumes "k < 10" and "acc * 10 + k < big"
  shows "dtoi_loop acc i (decimalDigit k # s) = dtoi_loop (acc * 10 + k) (Suc i) s"
  using assms by (simp add: of_char_decimalDigit Let_def)

lemma dtoi_loop_stop:
  assumes "s = [] \<or> hd s = CHR ''.''" and "0 < i"
  shows "dtoi_loop n i s = (n, i, True)"
  using assms by (cases s) auto

declare dtoi_loop.simps [simp del]

lemma dtoi_decimal:
  assumes "s = [] \<or> hd s = CHR ''.''"
  shows "dtoi (decimal b @ s) = (unat b, length (decimal b), True)"
proof -
  define n where "n = unat b"
  have n: "n < 256"
    using unsigned_less [of b, where ?'a = nat] by (simp add: n_def)
  consider "n < 10" | "10 \<le> n \<and> n < 100" | "100 \<le> n"
    by linarith
  then show ?thesis
  proof cases
    case 1
    then have dec: "decimal b = [decimalDigit n]"
      by (simp add: decimal_def n_def Let_def)
    have "dtoi_loop 0 0 (decimalDigit n # s) = dtoi_loop n (Suc 0) s"
      using dtoi_loop_digit [of n 0 0 s] 1 by (simp add: big_def)
    also have "\<dots> = (n, Suc 0, True)"
      using assms by (intro dtoi_loop_stop) simp_all
    finally show ?thesis
      by (simp add: dtoi_def dec n_def)
  next
    case 2
    then have dec: "decimal b = [decimalDigit (n div 10), decimalDigit (n mod 10)]"
      by (simp add: decimal_def n_def Let_def)
    from 2 have d: "n div 10 < 10"
      by (simp add: div_less_iff_less_mult)
    have "dtoi_loop 0 0 (decimalDigit (n div 10) # decimalDigit (n mod 10) # s) =
        dtoi_loop (n div 10) (Suc 0) (decimalDigit (n mod 10) # s)"
      using dtoi_loop_digit [of "n div 10" 0 0] d by (simp add: big_def)
    also have "\<dots> = dtoi_loop (n div 10 * 10 + n mod 10) (Suc (Suc 0)) s"
      using dtoi_loop_digit [of "n mod 10" "n div 10" "Suc 0" s] n by (simp add: big_def)
    also have "\<dots> = dtoi_loop n (Suc (Suc 0)) s"
      by simp
    also have "\<dots> = (n, Suc (Suc 0), True)"
      using assms by (intro dtoi_loop_stop) simp_all
    finally show ?thesis
      by (simp add: dtoi_def dec n_def)
  next
    case 3
    then have dec: "decimal b =
        [decimalDigit (n div 100), decimalDigit (n div 10 mod 10), decimalDigit (n mod 10)]"
      by (simp add: decimal_def n_def Let_def)
    have d: "n div 100 < 10"
      using n by (simp add: div_less_iff_less_mult)
    have e: "n div 100 * 10 + n div 10 mod 10 = n div 10"
      using div_mult2_eq [of n 10 10] by simp
    have "dtoi_loop 0 0
          (decimalDigit (n div 100) # decimalDigit (n div 10 mod 10) # decimalDigit (n mod 10) # s) =
        dtoi_loop (n div 100) (Suc 0) (decimalDigit (n div 10 mod 10) # decimalDigit (n mod 10) # s)"
      using dtoi_loop_digit [of "n div 100" 0 0] d by (simp add: big_def)
    also have "\<dots> = dtoi_loop (n div 100 * 10 + n div 10 mod 10) (Suc (Suc 0)) (decimalDigit (n mod 10) # s)"
      using dtoi_loop_digit [of "n div 10 mod 10" "n div 100" "Suc 0"] d by (simp add: big_def)
    also have "\<dots> = dtoi_loop (n div 10) (Suc (Suc 0)) (decimalDigit (n mod 10) # s)"
      by (simp only: e)
    also have "\<dots> = dtoi_loop (n div 10 * 10 + n mod 10) (Suc (Suc (Suc 0))) s"
      using dtoi_loop_digit [of "n mod 10" "n div 10" "Suc (Suc 0)" s] n by (simp add: big_def)
    also have "\<dots> = dtoi_loop n (Suc (Suc (Suc 0))) s"
      by simp
    also have "\<dots> = (n, Suc (Suc (Suc 0)), True)"
      using assms by (intro dtoi_loop_stop) simp_all
    finally show ?thesis
      by (simp add: dtoi_def dec n_def)
  qed
qed

lemma decimal_nonempty: "decimal b \<noteq> []"
  by (simp add: decimal_def Let_def)

lemma drop_decimal: "drop (length (decimal b)) (decimal b @ s) = s"
  by simp

lemma of_nat_unat_byte: "(of_nat (unat b) :: byte) = b"
  by simp

declare parseIPv4_loop.simps [simp del]

lemma parseIPv4_loop_first:
  assumes "s = [] \<or> hd s = CHR ''.''"
  shows "parseIPv4_loop 0 p (decimal b @ s) = parseIPv4_loop (Suc 0) (p @ [b]) s"
proof -
  have "unat b < 256"
    using unsigned_less [of b, where ?'a = nat] by simp
  then show ?thesis
    using decimal_nonempty [of b]
    by (subst parseIPv4_loop.simps)
       (simp add: IPv4len_def dtoi_decimal [OF assms] Let_def)
qed

lemma parseIPv4_loop_next:
  assumes "s = [] \<or> hd s = CHR ''.''" and "0 < i" and "i < 4"
  shows "parseIPv4_loop i p (CHR ''.'' # decimal b @ s) = parseIPv4_loop (Suc i) (p @ [b]) s"
proof -
  have "unat b < 256"
    using unsigned_less [of b, where ?'a = nat] by simp
  then show ?thesis
    using assms(2,3)
    by (subst parseIPv4_loop.simps)
       (simp add: IPv4len_def dtoi_decimal [OF assms(1)] Let_def)
qed

lemma parseIPv4_dotted: "parseIPv4 (dotted a b c d) = IPv4 a b c d"
proof -
  have "parseIPv4 (dotted a b c d) =
      parseIPv4_loop (Suc 0) [a] (CHR ''.'' # decimal b @ CHR ''.'' # decimal c @ CHR ''.'' # decimal d @ [])"
    unfolding parseIPv4_def dotted_def
    using parseIPv4_loop_first [of "CHR ''.'' # decimal b @ CHR ''.'' # decimal c @ CHR ''.'' # decimal d @ []" "[]" a]
    by simp
  also have "\<dots> = parseIPv4_loop (Suc (Suc 0)) [a, b] (CHR ''.'' # decimal c @ CHR ''.'' # decimal d @ [])"
    using parseIPv4_loop_next [of "CHR ''.'' # decimal c @ CHR ''.'' # decimal d @ []" "Suc 0" "[a]" b]
    by simp
  also have "\<dots> = parseIPv4_loop (Suc (Suc (Suc 0))) [a, b, c] (CHR ''.'' # decimal d @ [])"
    using parseIPv4_loop_next [of "CHR ''.'' # decimal d @ []" "Suc (Suc 0)" "[a, b]" c]
    by simp
  also have "\<dots> = parseIPv4_loop (Suc (Suc (Suc (Suc 0)))) [a, b, c, d] []"
    using parseIPv4_loop_next [of "[]" "Suc (Suc (Suc 0))" "[a, b, c]" d]
    by simp
  also have "\<dots> = IPv4 a b c d"
    by (subst parseIPv4_loop.simps) (simp add: IPv4len_def)
  finally show ?thesis .
qed

lemma ParseIP_scan_digits:
  assumes "\<forall>x \<in> set ds. x \<noteq> CHR ''.'' \<and> x \<noteq> CHR '':''"
  shows "ParseIP_scan s (ds @ CHR ''.'' # rest) = parseIPv4 s"
  using assms by (induction ds) auto

lemma decimal_plain: "\<forall>x \<in> set (decimal b). x \<noteq> CHR ''.'' \<and> x \<noteq> CHR '':''"
proof -
  define n where "n = unat b"
  have n: "n < 256"
    using unsigned_less [of b, where ?'a = nat] by (simp add: n_def)
  have p: "decimalDigit k \<noteq> CHR ''.'' \<and> decimalDigit k \<noteq> CHR '':''" if "k < 10" for k
    using decimalDigit_plain [OF that] by simp
  have 1: "decimalDigit (n mod 10) \<noteq> CHR ''.'' \<and> decimalDigit (n mod 10) \<noteq> CHR '':''"
    by (rule p) simp
  have 2: "decimalDigit (n div 10 mod 10) \<noteq> CHR ''.'' \<and>
      decimalDigit (n div 10 mod 10) \<noteq> CHR '':''"
    by (rule p) simp
  have 3: "decimalDigit (n div 100) \<noteq> CHR ''.'' \<and> decimalDigit (n div 100) \<noteq> CHR '':''"
    using n by (intro p) (simp add: div_less_iff_less_mult)
  have 4: "decimalDigit (n div 10) \<noteq> CHR ''.'' \<and> decimalDigit (n div 10) \<noteq> CHR '':''"
    if "n < 100"
    using that by (intro p) (simp add: div_less_iff_less_mult)
  have 5: "decimalDigit n \<noteq> CHR ''.'' \<and> decimalDigit n \<noteq> CHR '':''" if "n < 10"
    using that by (rule p)
  from 1 2 3 4 5 show ?thesis
    unfolding decimal_def Let_def n_def [symmetric] by auto
qed

lemma ParseIP_dotted: "ParseIP (dotted a b c d) = IPv4 a b c d"
proof -
  have "ParseIP (dotted a b c d) = parseIPv4 (dotted a b c d)"
    unfolding ParseIP_def
    using ParseIP_scan_digits [OF decimal_plain, of "dotted a b c d" a
        "decimal b @ ''.'' @ decimal c @ ''.'' @ decimal d"]
    by (simp add: dotted_def)
  then show ?thesis
    by (simp add: parseIPv4_dotted)
qed

section \<open>The scan as a function of the lines\<close>

declare scanRows.simps [simp del]
declare scannerLines.simps [simp del]

lemma scannerLines_stop: "Scan s = (False, s1) \<Longrightarrow> scannerLines s = []"
  by (subst scannerLines.simps) simp

lemma scannerLines_step: "Scan s = (True, s1) \<Longrightarrow> scannerLines s = Text s1 # scannerLines s1"
  by (subst scannerLines.simps) simp

text \<open>
  What the loop of \<open>mptcpTableReaderLinux\<close> returns, read off the list of the lines
  still to come.
\<close>

fun rowsResult :: "string list \<Rightarrow> string \<Rightarrow> bool \<times> error option" where
  "rowsResult [] hexHostPort = (False, None)"
| "rowsResult (l # ls) hexHostPort =
     (case newMPTCPTableEntry (Fields l) of
        Inl err \<Rightarrow> (False, Some err)
      | Inr mptcpEntry \<Rightarrow>
          if RemoteAddr mptcpEntry = hexHostPort then (True, None)
          else rowsResult ls hexHostPort)"

lemma scanRows_lines: "scanRows s k = rowsResult (scannerLines s) k"
proof (induction s k rule: scanRows.induct)
  case (1 scanner hexHostPort)
  obtain ok scanner1 where sc: "Scan scanner = (ok, scanner1)"
    by (cases "Scan scanner")
  show ?case
  proof (cases ok)
    case False
    with sc show ?thesis
      by (simp add: scanRows.simps [of scanner] scannerLines_stop)
  next
    case True
    with sc have step: "scannerLines scanner = Text scanner1 # scannerLines scanner1"
      by (simp add: scannerLines_step)
    show ?thesis
    proof (cases "newMPTCPTableEntry (Fields (Text scanner1))")
      case (Inl e)
      with sc True show ?thesis
        by (simp add: scanRows.simps [of scanner] step)
    next
      case (Inr m)
      show ?thesis
      proof (cases "RemoteAddr m = hexHostPort")
        case yes: True
        with sc True Inr show ?thesis
          by (simp add: scanRows.simps [of scanner] step)
      next
        case no: False
        have "scanRows scanner1 hexHostPort = rowsResult (scannerLines scanner1) hexHostPort"
          using "1.IH" [OF sc [symmetric] _ Inr no] True by simp
        with sc True Inr no show ?thesis
          by (simp add: scanRows.simps [of scanner] step)
      qed
    qed
  qed
qed

lemma mptcpTableReaderLinux_lines:
  "mptcpTableReaderLinux r k =
     (case scannerLines (NewScanner r) of
        [] \<Rightarrow> (False, Some ErrUnexpectedEOF)
      | h # rows \<Rightarrow>
          if h \<noteq> mptcpTableHeader then (False, Some errInvalidMPTCPTable)
          else rowsResult rows k)"
proof -
  obtain ok scanner where sc: "Scan (NewScanner r) = (ok, scanner)"
    by (cases "Scan (NewScanner r)")
  show ?thesis
  proof (cases ok)
    case False
    with sc show ?thesis
      by (simp add: mptcpTableReaderLinux_def scannerLines_stop)
  next
    case True
    with sc have "scannerLines (NewScanner r) = Text scanner # scannerLines scanner"
      by (simp add: scannerLines_step)
    with sc True show ?thesis
      by (simp add: mptcpTableReaderLinux_def scanRows_lines Bytes_def Text_def)
  qed
qed

lemma newMPTCPTableEntry_error:
  "newMPTCPTableEntry flds = Inl e \<Longrightarrow> e = errInvalidMPTCPEntry"
  by (auto simp: newMPTCPTableEntry_def Let_def split: if_splits)

lemma rowsResult_error: "rowsResult ls k = (b, Some e) \<Longrightarrow> e = errInvalidMPTCPEntry"
proof (induction ls)
  case Nil
  then show ?case by simp
next
  case (Cons l ls)
  then show ?case
    by (auto split: sum.splits if_splits dest: newMPTCPTableEntry_error)
qed

lemma rowsResult_skip:
  assumes "\<forall>l \<in> set pre. \<exists>m. newMPTCPTableEntry (Fields l) = Inr m \<and> RemoteAddr m \<noteq> k"
  shows "rowsResult (pre @ rest) k = rowsResult rest k"
  using assms by (induction pre) auto

lemma rowsResult_invalid_before_match:
  assumes "\<forall>l \<in> set pre. \<not> (\<exists>m. newMPTCPTableEntry (Fields l) = Inr m \<and> RemoteAddr m = k)"
    and "rowsResult rest k = (False, Some errInvalidMPTCPEntry)"
  shows "rowsResult (pre @ rest) k = (False, Some errInvalidMPTCPEntry)"
  using assms
proof (induction pre)
  case Nil
  then show ?case by simp
next
  case (Cons l pre)
  then show ?case
    by (cases "newMPTCPTableEntry (Fields l)") (auto dest: newMPTCPTableEntry_error)
qed

text \<open>The lines depend on the bytes only, not on how the reader ends.\<close>

lemma Scan_pending_only:
  assumes "sc_pending s = sc_pending t"
  shows "fst (Scan s) = fst (Scan t) \<and>
         sc_pending (snd (Scan s)) = sc_pending (snd (Scan t)) \<and>
         sc_token (snd (Scan s)) = sc_token (snd (Scan t))"
  using assms by (auto simp: Scan_def Let_def split: prod.splits option.splits)

lemma scannerLines_pending_only:
  "sc_pending s = sc_pending t \<Longrightarrow> scannerLines s = scannerLines t"
proof (induction s arbitrary: t rule: scannerLines.induct)
  case (1 s)
  obtain ok s1 where s: "Scan s = (ok, s1)"
    by (cases "Scan s")
  obtain ok' t1 where t: "Scan t = (ok', t1)"
    by (cases "Scan t")
  from Scan_pending_only [OF "1.prems"] s t
  have same: "ok = ok'" "sc_pending s1 = sc_pending t1" "sc_token s1 = sc_token t1"
    by simp_all
  show ?case
  proof (cases ok)
    case False
    with s t same show ?thesis
      by (simp add: scannerLines_stop)
  next
    case True
    have "scannerLines s1 = scannerLines t1"
      using "1.IH" [OF s [symmetric] _ same(2)] True by simp
    with s t same True show ?thesis
      by (simp add: scannerLines_step Text_def)
  qed
qed

section \<open>\<open>Scan\<close> on the bytes\<close>

text \<open>
  The next line of the pending bytes is what comes before the first newline, or all
  of them when there is none. \<open>Scan\<close> hands it out, without a trailing carriage
  return, when it is shorter than \<open>MaxScanTokenSize\<close>; it stops with \<open>ErrTooLong\<close>
  when it is not; and it stops with the reader's own end when nothing is pending.
\<close>

lemma IndexByte_takeWhile:
  "IndexByte d c = (if c \<in> set d then Some (length (takeWhile (\<lambda>b. b \<noteq> c) d)) else None)"
  by (induction d) auto

lemma takeWhile_take:
  "length (takeWhile P d) < n \<Longrightarrow> takeWhile P (take n d) = takeWhile P d"
proof (induction d arbitrary: n)
  case Nil
  then show ?case by simp
next
  case (Cons a d)
  then show ?case
    by (cases n) auto
qed

lemma takeWhile_take_long:
  "n \<le> length (takeWhile P d) \<Longrightarrow> takeWhile P (take n d) = take n d"
proof (induction d arbitrary: n)
  case Nil
  then show ?case by simp
next
  case (Cons a d)
  then show ?case
    by (cases n) (auto split: if_splits)
qed

lemma MaxScanTokenSize_pos: "0 < MaxScanTokenSize"
  by (simp add: MaxScanTokenSize_def)

lemma Scan_end:
  "sc_pending s = [] \<Longrightarrow>
   Scan s = (False, s\<lparr>sc_pending := [], sc_token := [], sc_err := sc_end s\<rparr>)"
  using MaxScanTokenSize_pos by (simp add: Scan_def ScanLines_def)

lemma Scan_line:
  assumes ne: "sc_pending s \<noteq> []"
    and short: "length (takeWhile (\<lambda>b. b \<noteq> CHR 0x0A) (sc_pending s)) < MaxScanTokenSize"
  shows "Scan s =
    (True, s\<lparr>sc_pending :=
                drop (Suc (length (takeWhile (\<lambda>b. b \<noteq> CHR 0x0A) (sc_pending s)))) (sc_pending s),
             sc_token := dropCR (takeWhile (\<lambda>b. b \<noteq> CHR 0x0A) (sc_pending s))\<rparr>)"
proof -
  define d where "d = sc_pending s"
  define l where "l = takeWhile (\<lambda>b. b \<noteq> CHR 0x0A) d"
  define buf where "buf = take MaxScanTokenSize d"
  define full where "full = (MaxScanTokenSize \<le> length d)"
  have short': "length l < MaxScanTokenSize"
    using short by (simp add: l_def d_def)
  have tw: "takeWhile (\<lambda>b. b \<noteq> CHR 0x0A) buf = l"
    unfolding buf_def l_def using short' [unfolded l_def] by (rule takeWhile_take)
  have bufne: "buf \<noteq> []"
    using ne MaxScanTokenSize_pos by (simp add: buf_def d_def)
  have sl: "ScanLines buf (\<not> full) = (Suc (length l), Some (dropCR l)) \<or>
            ScanLines buf (\<not> full) = (length l, Some (dropCR l)) \<and> length l = length d"
  proof (cases "CHR 0x0A \<in> set buf")
    case True
    then have idx: "IndexByte buf (CHR 0x0A) = Some (length l)"
      by (simp add: IndexByte_takeWhile tw)
    have "takeWhile (\<lambda>b. b \<noteq> CHR 0x0A) buf =
        take (length (takeWhile (\<lambda>b. b \<noteq> CHR 0x0A) buf)) buf"
      by (rule takeWhile_eq_take)
    then have "take (length l) buf = l"
      unfolding tw by (rule sym)
    with idx bufne show ?thesis
      by (simp add: ScanLines_def)
  next
    case False
    then have idx: "IndexByte buf (CHR 0x0A) = None"
      by (simp add: IndexByte_takeWhile)
    from False have "takeWhile (\<lambda>b. b \<noteq> CHR 0x0A) buf = buf"
      by (auto simp: takeWhile_eq_all_conv)
    then have lb: "l = buf"
      unfolding tw .
    then have "length (take MaxScanTokenSize d) < MaxScanTokenSize"
      using short' by (simp add: buf_def)
    then have len: "length d < MaxScanTokenSize"
      by (simp add: min_def split: if_splits)
    then have "buf = d"
      by (simp add: buf_def)
    with lb have ld: "l = d"
      by simp
    from len have "\<not> full"
      by (simp add: full_def)
    with idx bufne ld \<open>buf = d\<close> show ?thesis
      by (simp add: ScanLines_def)
  qed
  have scan: "Scan s =
      (case ScanLines buf (\<not> full) of
         (advance, Some token) \<Rightarrow> (True, s\<lparr>sc_pending := drop advance d, sc_token := token\<rparr>)
       | (advance, None) \<Rightarrow>
           (False, s\<lparr>sc_pending := [], sc_token := [],
                     sc_err := (if full then Some ErrTooLong else sc_end s)\<rparr>))"
    unfolding Scan_def Let_def buf_def full_def d_def by (rule refl)
  from sl have "Scan s = (True, s\<lparr>sc_pending := drop (Suc (length l)) d, sc_token := dropCR l\<rparr>)"
  proof
    assume "ScanLines buf (\<not> full) = (Suc (length l), Some (dropCR l))"
    then show ?thesis
      by (simp add: scan)
  next
    assume "ScanLines buf (\<not> full) = (length l, Some (dropCR l)) \<and> length l = length d"
    then show ?thesis
      by (simp add: scan)
  qed
  then show ?thesis
    by (simp add: l_def d_def)
qed

lemma Scan_too_long:
  assumes "MaxScanTokenSize \<le> length (takeWhile (\<lambda>b. b \<noteq> CHR 0x0A) (sc_pending s))"
  shows "Scan s = (False, s\<lparr>sc_pending := [], sc_token := [], sc_err := Some ErrTooLong\<rparr>)"
proof -
  define d where "d = sc_pending s"
  define buf where "buf = take MaxScanTokenSize d"
  define full where "full = (MaxScanTokenSize \<le> length d)"
  have long: "MaxScanTokenSize \<le> length (takeWhile (\<lambda>b. b \<noteq> CHR 0x0A) d)"
    using assms by (simp add: d_def)
  have "takeWhile (\<lambda>b. b \<noteq> CHR 0x0A) buf = buf"
    unfolding buf_def using long by (rule takeWhile_take_long)
  then have "CHR 0x0A \<notin> set buf"
    by (auto simp: takeWhile_eq_all_conv)
  then have idx: "IndexByte buf (CHR 0x0A) = None"
    by (simp add: IndexByte_takeWhile)
  have "length (takeWhile (\<lambda>b. b \<noteq> CHR 0x0A) d) \<le> length d"
    by (rule length_takeWhile_le)
  with long have full: "full"
    unfolding full_def by (rule order_trans)
  from idx have sl: "ScanLines buf False = (0, None)"
    by (simp add: ScanLines_def)
  have scan: "Scan s =
      (case ScanLines buf (\<not> full) of
         (advance, Some token) \<Rightarrow> (True, s\<lparr>sc_pending := drop advance d, sc_token := token\<rparr>)
       | (advance, None) \<Rightarrow>
           (False, s\<lparr>sc_pending := [], sc_token := [],
                     sc_err := (if full then Some ErrTooLong else sc_end s)\<rparr>))"
    unfolding Scan_def Let_def buf_def full_def d_def by (rule refl)
  show ?thesis
    using full by (simp add: scan sl)
qed

lemma scannerLines_line:
  assumes "CHR 0x0A \<notin> set l" and "length l < MaxScanTokenSize"
    and "sc_pending s = l @ CHR 0x0A # rest"
  shows "scannerLines s = dropCR l # scannerLines (s\<lparr>sc_pending := rest, sc_token := dropCR l\<rparr>)"
proof -
  have "takeWhile (\<lambda>b. b \<noteq> CHR 0x0A) (l @ CHR 0x0A # rest) =
      l @ takeWhile (\<lambda>b. b \<noteq> CHR 0x0A) (CHR 0x0A # rest)"
    using assms(1) by (intro takeWhile_append2) auto
  then have tw: "takeWhile (\<lambda>b. b \<noteq> CHR 0x0A) (sc_pending s) = l"
    by (simp add: assms(3))
  have ne: "sc_pending s \<noteq> []"
    by (simp add: assms(3))
  have short: "length (takeWhile (\<lambda>b. b \<noteq> CHR 0x0A) (sc_pending s)) < MaxScanTokenSize"
    unfolding tw by (rule assms(2))
  have "Scan s = (True, s\<lparr>sc_pending := rest, sc_token := dropCR l\<rparr>)"
    using Scan_line [OF ne short] unfolding tw by (simp add: assms(3))
  then show ?thesis
    by (simp add: scannerLines_step Text_def)
qed

lemma scannerLines_last_line:
  assumes "CHR 0x0A \<notin> set l" and "length l < MaxScanTokenSize" and "l \<noteq> []"
    and "sc_pending s = l"
  shows "scannerLines s = [dropCR l]"
proof -
  have tw: "takeWhile (\<lambda>b. b \<noteq> CHR 0x0A) (sc_pending s) = l"
    using assms(1) by (auto simp: assms(4) takeWhile_eq_all_conv)
  have ne: "sc_pending s \<noteq> []"
    by (simp add: assms(3,4))
  have short: "length (takeWhile (\<lambda>b. b \<noteq> CHR 0x0A) (sc_pending s)) < MaxScanTokenSize"
    unfolding tw by (rule assms(2))
  have s1: "Scan s = (True, s\<lparr>sc_pending := [], sc_token := dropCR l\<rparr>)"
    using Scan_line [OF ne short] unfolding tw by (simp add: assms(4))
  have "Scan (s\<lparr>sc_pending := [], sc_token := dropCR l\<rparr>) =
      (False, s\<lparr>sc_pending := [], sc_token := [], sc_err := sc_end s\<rparr>)"
    using Scan_end [of "s\<lparr>sc_pending := [], sc_token := dropCR l\<rparr>"] by simp
  then have "scannerLines (s\<lparr>sc_pending := [], sc_token := dropCR l\<rparr>) = []"
    by (rule scannerLines_stop)
  with s1 show ?thesis
    by (simp add: scannerLines_step Text_def)
qed

text \<open>
  A stream of newline-terminated lines, each shorter than \<open>MaxScanTokenSize\<close>, is
  handed out line by line, a trailing carriage return dropped; so is such a stream
  followed by a last line without its newline.
\<close>

lemma scannerLines_terminated:
  assumes "\<forall>l \<in> set ls. CHR 0x0A \<notin> set l \<and> length l < MaxScanTokenSize"
    and "sc_pending s = concat (map (\<lambda>l. l @ [CHR 0x0A]) ls)"
  shows "scannerLines s = map dropCR ls"
  using assms
proof (induction ls arbitrary: s)
  case Nil
  then have "Scan s = (False, s\<lparr>sc_pending := [], sc_token := [], sc_err := sc_end s\<rparr>)"
    by (simp add: Scan_end)
  then show ?case
    by (simp add: scannerLines_stop)
next
  case (Cons l ls)
  let ?s1 = "s\<lparr>sc_pending := concat (map (\<lambda>l. l @ [CHR 0x0A]) ls), sc_token := dropCR l\<rparr>"
  have "scannerLines s = dropCR l # scannerLines ?s1"
    using Cons.prems by (intro scannerLines_line) simp_all
  moreover have "scannerLines ?s1 = map dropCR ls"
    using Cons.prems by (intro Cons.IH) simp_all
  ultimately show ?case
    by simp
qed

lemma scannerLines_unterminated:
  assumes "\<forall>l \<in> set ls. CHR 0x0A \<notin> set l \<and> length l < MaxScanTokenSize"
    and "CHR 0x0A \<notin> set z" and "length z < MaxScanTokenSize" and "z \<noteq> []"
    and "sc_pending s = concat (map (\<lambda>l. l @ [CHR 0x0A]) ls) @ z"
  shows "scannerLines s = map dropCR ls @ [dropCR z]"
  using assms
proof (induction ls arbitrary: s)
  case Nil
  then show ?case
    by (simp add: scannerLines_last_line)
next
  case (Cons l ls)
  let ?s1 = "s\<lparr>sc_pending := concat (map (\<lambda>l. l @ [CHR 0x0A]) ls) @ z, sc_token := dropCR l\<rparr>"
  have "scannerLines s = dropCR l # scannerLines ?s1"
    using Cons.prems by (intro scannerLines_line) simp_all
  moreover have "scannerLines ?s1 = map dropCR ls @ [dropCR z]"
    using Cons.prems by (intro Cons.IH) simp_all
  ultimately show ?case
    by simp
qed

lemma scannerLines_prefix:
  assumes "\<forall>l \<in> set ls. CHR 0x0A \<notin> set l \<and> length l < MaxScanTokenSize"
    and "sc_pending s = concat (map (\<lambda>l. l @ [CHR 0x0A]) ls) @ rest"
  shows "scannerLines s = map dropCR ls @ scannerLines (s\<lparr>sc_pending := rest\<rparr>)"
  using assms
proof (induction ls arbitrary: s)
  case Nil
  then have "s\<lparr>sc_pending := rest\<rparr> = s"
    by simp
  then show ?case
    by simp
next
  case (Cons l ls)
  let ?s1 = "s\<lparr>sc_pending := concat (map (\<lambda>l. l @ [CHR 0x0A]) ls) @ rest, sc_token := dropCR l\<rparr>"
  have "scannerLines s = dropCR l # scannerLines ?s1"
    using Cons.prems by (intro scannerLines_line) simp_all
  moreover have "scannerLines ?s1 = map dropCR ls @ scannerLines (?s1\<lparr>sc_pending := rest\<rparr>)"
    using Cons.prems by (intro Cons.IH) simp_all
  moreover have "scannerLines (?s1\<lparr>sc_pending := rest\<rparr>) = scannerLines (s\<lparr>sc_pending := rest\<rparr>)"
    by (rule scannerLines_pending_only) simp
  ultimately show ?case
    by simp
qed

section \<open>White space\<close>

lemma spaceWidth_runes: "\<forall>w \<in> set spaceRunes. spaceWidth (w @ rest) = length w"
  by (simp add: spaceRunes_def spaceWidth_def)

lemma spaceRunes_nonempty: "[] \<notin> set spaceRunes"
  by (simp add: spaceRunes_def)

lemma fieldsFrom_skip_rune:
  assumes "w \<in> set spaceRunes"
  shows "fieldsFrom [] (w @ rest) = fieldsFrom [] rest"
proof -
  have "w \<noteq> []"
    using assms spaceRunes_nonempty by auto
  then obtain c cs where w: "w = c # cs"
    by (auto simp: neq_Nil_conv)
  have "spaceWidth (w @ rest) = length w"
    using spaceWidth_runes assms by blast
  then have "spaceWidth (c # cs @ rest) = Suc (length cs)"
    by (simp add: w)
  then show ?thesis
    by (simp add: w)
qed

lemma Fields_only_space: "set ws \<subseteq> set spaceRunes \<Longrightarrow> Fields (concat ws) = []"
  unfolding Fields_def
  by (induction ws) (simp_all add: fieldsFrom_skip_rune)

text \<open>
  Among the white-space runes only the carriage return itself ends in a carriage
  return, so a line of white space is still one after \<open>dropCR\<close>.
\<close>

lemma spaceRunes_last_CR: "\<forall>w \<in> set spaceRunes. last w = CHR 0x0D \<longrightarrow> w = [CHR 0x0D]"
  by (simp add: spaceRunes_def)

lemma dropCR_only_space:
  assumes "set ws \<subseteq> set spaceRunes"
  shows "\<exists>vs. set vs \<subseteq> set spaceRunes \<and> dropCR (concat ws) = concat vs"
proof (cases "concat ws \<noteq> [] \<and> last (concat ws) = CHR 0x0D")
  case False
  then have "dropCR (concat ws) = concat ws"
    by (auto simp: dropCR_def)
  with assms show ?thesis
    by blast
next
  case True
  then have "ws \<noteq> []"
    by auto
  then obtain us w where ws: "ws = us @ [w]"
    by (metis rev_exhaust)
  with assms have w: "w \<in> set spaceRunes" and us: "set us \<subseteq> set spaceRunes"
    by simp_all
  from w spaceRunes_nonempty have "w \<noteq> []"
    by auto
  then have "last (concat ws) = last w"
    by (simp add: ws)
  with True have "last w = CHR 0x0D"
    by simp
  with w spaceRunes_last_CR have "w = [CHR 0x0D]"
    by blast
  then have "dropCR (concat ws) = concat us"
    by (simp add: ws dropCR_def)
  with us show ?thesis
    by blast
qed

lemma Fields_dropCR_only_space:
  "set ws \<subseteq> set spaceRunes \<Longrightarrow> Fields (dropCR (concat ws)) = []"
  using dropCR_only_space [of ws] Fields_only_space by auto

section \<open>The sample tables, line by line\<close>

lemma rowA_entry:
  "newMPTCPTableEntry (Fields rowA) = Inr \<lparr>IsIPv6 = False, RemoteAddr = ''0202000A:C7A8''\<rparr>"
  by code_simp

lemma rowB_entry:
  "newMPTCPTableEntry (Fields rowB) = Inr \<lparr>IsIPv6 = False, RemoteAddr = ''0100007F:0050''\<rparr>"
  by code_simp

lemma rowB_lower_entry:
  "newMPTCPTableEntry (Fields rowB_lower) = Inr \<lparr>IsIPv6 = False, RemoteAddr = ''0100007f:0050''\<rparr>"
  by code_simp

lemma rowShort_entry: "newMPTCPTableEntry (Fields rowShort) = Inl errInvalidMPTCPEntry"
  by code_simp

lemma scannerLines_reader:
  "scannerLines (NewScanner \<lparr>rdata = d, rerr = e\<rparr>) =
   scannerLines (NewScanner \<lparr>rdata = d, rerr = None\<rparr>)"
  by (rule scannerLines_pending_only) (simp add: NewScanner_def)

lemma sample_lines_plain:
  "\<forall>l \<in> set [mptcpTableHeader, rowA, rowB, rowB_lower, rowShort, [],
      [CHR 0x20, CHR 0x09, CHR 0x20]].
     CHR 0x0A \<notin> set l \<and> length l < MaxScanTokenSize \<and> dropCR l = l"
  by (simp add: mptcpTableHeader_def rowA_def rowB_def rowB_lower_def rowShort_def
      MaxScanTokenSize_def dropCR_def)

lemma tableFound_lines:
  "scannerLines (NewScanner \<lparr>rdata = tableFound, rerr = None\<rparr>) =
   [mptcpTableHeader, rowA, rowB, rowShort]"
  using scannerLines_terminated [of "[mptcpTableHeader, rowA, rowB, rowShort]"
      "NewScanner \<lparr>rdata = tableFound, rerr = None\<rparr>"] sample_lines_plain
  by (simp add: NewScanner_def tableFound_def newline_def)

lemma tableBad_lines:
  "scannerLines (NewScanner \<lparr>rdata = tableBad, rerr = None\<rparr>) =
   [mptcpTableHeader, rowA, rowShort, rowB]"
  using scannerLines_terminated [of "[mptcpTableHeader, rowA, rowShort, rowB]"
      "NewScanner \<lparr>rdata = tableBad, rerr = None\<rparr>"] sample_lines_plain
  by (simp add: NewScanner_def tableBad_def newline_def)

lemma tableNone_lines:
  "scannerLines (NewScanner \<lparr>rdata = tableNone, rerr = None\<rparr>) = [mptcpTableHeader, rowA]"
  using scannerLines_terminated [of "[mptcpTableHeader, rowA]"
      "NewScanner \<lparr>rdata = tableNone, rerr = None\<rparr>"] sample_lines_plain
  by (simp add: NewScanner_def tableNone_def newline_def)

lemma tableLower_lines:
  "scannerLines (NewScanner \<lparr>rdata = tableLower, rerr = None\<rparr>) =
   [mptcpTableHeader, rowA, rowB_lower]"
  using scannerLines_terminated [of "[mptcpTableHeader, rowA, rowB_lower]"
      "NewScanner \<lparr>rdata = tableLower, rerr = None\<rparr>"] sample_lines_plain
  by (simp add: NewScanner_def tableLower_def newline_def)

lemma tableBlank_lines:
  "scannerLines (NewScanner \<lparr>rdata = tableBlank, rerr = None\<rparr>) = [mptcpTableHeader, rowA, []]"
  using scannerLines_terminated [of "[mptcpTableHeader, rowA, []]"
      "NewScanner \<lparr>rdata = tableBlank, rerr = None\<rparr>"] sample_lines_plain
  by (simp add: NewScanner_def tableBlank_def newline_def)

lemma tableSpaces_lines:
  "scannerLines (NewScanner \<lparr>rdata = tableSpaces, rerr = None\<rparr>) =
   [mptcpTableHeader, rowA, [CHR 0x20, CHR 0x09, CHR 0x20], rowB]"
  using scannerLines_terminated [of "[mptcpTableHeader, rowA, [CHR 0x20, CHR 0x09, CHR 0x20], rowB]"
      "NewScanner \<lparr>rdata = tableSpaces, rerr = None\<rparr>"] sample_lines_plain
  by (simp add: NewScanner_def tableSpaces_def newline_def)

lemma rowsResult_found:
  assumes "\<forall>l \<in> set pre. \<exists>m. newMPTCPTableEntry (Fields l) = Inr m"
    and "newMPTCPTableEntry (Fields row) = Inr m" and "RemoteAddr m = k"
  shows "rowsResult (pre @ row # rest) k = (True, None)"
  using assms by (induction pre) auto

lemma rowsResult_none:
  assumes "\<forall>l \<in> set rows. \<exists>m. newMPTCPTableEntry (Fields l) = Inr m \<and> RemoteAddr m \<noteq> k"
  shows "rowsResult rows k = (False, None)"
  using rowsResult_skip [OF assms, of "[]"] by simp

lemma rowsResult_no_OSError: "snd (rowsResult ls k) \<noteq> Some (OSError x)"
  by (cases "rowsResult ls k") (auto dest: rowsResult_error)

lemma localhost_80:
  "hostToHex ''127.0.0.1'' = Inr ''0100007f'' \<and>
   ToUpper (JoinHostPort ''0100007f'' (u16PortToHex 80)) = ''0100007F:0050''"
  by code_simp

lemma header_plain:
  "CHR 0x0A \<notin> set mptcpTableHeader" "length mptcpTableHeader < MaxScanTokenSize"
  "dropCR mptcpTableHeader = mptcpTableHeader"
  using sample_lines_plain by simp_all

text \<open>
  A line of \<open>MaxScanTokenSize\<close> bytes or more stops the scanner with \<open>ErrTooLong\<close>,
  and the table scanner, which never asks the scanner for its error, treats that as
  the end of the input: as the first line it gives \<open>io.ErrUnexpectedEOF\<close>, and right
  after the header it gives \<open>(false, nil)\<close>, whatever follows the line.
\<close>

lemma mptcpTableReaderLinux_long_line:
  "(MaxScanTokenSize \<le> length (takeWhile (\<lambda>b. b \<noteq> CHR 0x0A) (rdata r)) \<longrightarrow>
      mptcpTableReaderLinux r k = (False, Some ErrUnexpectedEOF)) \<and>
   (rdata r = mptcpTableHeader @ CHR 0x0A # rest \<and>
    MaxScanTokenSize \<le> length (takeWhile (\<lambda>b. b \<noteq> CHR 0x0A) rest) \<longrightarrow>
      mptcpTableReaderLinux r k = (False, None))"
proof (intro conjI impI)
  assume "MaxScanTokenSize \<le> length (takeWhile (\<lambda>b. b \<noteq> CHR 0x0A) (rdata r))"
  then have "Scan (NewScanner r) =
      (False, (NewScanner r)\<lparr>sc_pending := [], sc_token := [], sc_err := Some ErrTooLong\<rparr>)"
    by (intro Scan_too_long) (simp add: NewScanner_def)
  then show "mptcpTableReaderLinux r k = (False, Some ErrUnexpectedEOF)"
    by (simp add: mptcpTableReaderLinux_def)
next
  assume a: "rdata r = mptcpTableHeader @ CHR 0x0A # rest \<and>
    MaxScanTokenSize \<le> length (takeWhile (\<lambda>b. b \<noteq> CHR 0x0A) rest)"
  have h: "CHR 0x0A \<notin> set mptcpTableHeader" "length mptcpTableHeader < MaxScanTokenSize"
    "dropCR mptcpTableHeader = mptcpTableHeader"
    using sample_lines_plain by simp_all
  let ?s1 = "(NewScanner r)\<lparr>sc_pending := rest, sc_token := mptcpTableHeader\<rparr>"
  have "scannerLines (NewScanner r) = mptcpTableHeader # scannerLines ?s1"
    using scannerLines_line [of mptcpTableHeader "NewScanner r" rest] h a
    by (simp add: NewScanner_def)
  moreover have "Scan ?s1 =
      (False, ?s1\<lparr>sc_pending := [], sc_token := [], sc_err := Some ErrTooLong\<rparr>)"
    using a by (intro Scan_too_long) simp
  then have "scannerLines ?s1 = []"
    by (rule scannerLines_stop)
  ultimately show "mptcpTableReaderLinux r k = (False, None)"
    by (simp add: mptcpTableReaderLinux_lines)
qed

lemma long_line_first:
  "MaxScanTokenSize \<le>
     length (takeWhile (\<lambda>b. b \<noteq> CHR 0x0A) (replicate MaxScanTokenSize c @ CHR 0x0A # z))"
  if "c \<noteq> CHR 0x0A"
proof -
  have "takeWhile (\<lambda>b. b \<noteq> CHR 0x0A) (replicate MaxScanTokenSize c @ CHR 0x0A # z) =
      replicate MaxScanTokenSize c @ takeWhile (\<lambda>b. b \<noteq> CHR 0x0A) (CHR 0x0A # z)"
    using that by (intro takeWhile_append2) simp
  then show ?thesis
    by simp
qed

text \<open>
  A line without fields among the lines the scanner hands out, before any row that
  matches, makes the result \<open>errInvalidMPTCPEntry\<close>.
\<close>

lemma blank_line_among_lines:
  assumes lines: "scannerLines (NewScanner r) = mptcpTableHeader # pre @ blank # rest"
    and blank: "Fields blank = []"
    and pre: "\<forall>l \<in> set pre. \<not> (\<exists>m. newMPTCPTableEntry (Fields l) = Inr m \<and> RemoteAddr m = k)"
  shows "mptcpTableReaderLinux r k = (False, Some errInvalidMPTCPEntry)"
proof -
  have "newMPTCPTableEntry (Fields blank) = Inl errInvalidMPTCPEntry"
    by (simp add: blank newMPTCPTableEntry_def mptcpTableColumns_def)
  then have "rowsResult (blank # rest) k = (False, Some errInvalidMPTCPEntry)"
    by simp
  with pre have "rowsResult (pre @ blank # rest) k = (False, Some errInvalidMPTCPEntry)"
    by (rule rowsResult_invalid_before_match)
  with lines show ?thesis
    by (simp add: mptcpTableReaderLinux_lines)
qed

section \<open>The claims\<close>

text \<open>
  C1. A host is a valid IPv4 address with octets \<open>a\<close>, \<open>b\<close>, \<open>c\<close>, \<open>d\<close> when \<open>net.ParseIP\<close>
  reads it as \<open>net.IPv4(a, b, c, d)\<close>; the dotted-decimal spelling of the octets is
  such a host, whatever the octets. For every such host and every 16-bit port,
  \<open>hostToHex\<close> returns no error, and the key that \<open>checkMPTCP\<close> hands to the lookup
  function is the upper-cased concatenation of the two-digit lower-case hex of \<open>d\<close>,
  \<open>c\<close>, \<open>b\<close>, \<open>a\<close>, a colon, and the port's little-endian buffer printed byte 1 and
  then byte 0. The lookup function is arbitrary, so the theorem fixes the key itself.
\<close>

theorem checkMPTCP_encodes_IPv4:
  "(ParseIP host = IPv4 a b c d \<longrightarrow>
     hostToHex host = Inr (hex02x d @ hex02x c @ hex02x b @ hex02x a) \<and>
     checkMPTCP lookup host port =
       lookup (ToUpper (hex02x d @ hex02x c @ hex02x b @ hex02x a @ '':'' @
                        hex02x (PutUint16 port ! 1) @ hex02x (PutUint16 port ! 0)))) \<and>
   ParseIP (dotted a b c d) = IPv4 a b c d \<and>
   hostToHex (dotted a b c d) = Inr (hex02x d @ hex02x c @ hex02x b @ hex02x a) \<and>
   checkMPTCP lookup (dotted a b c d) port =
     lookup (ToUpper (hex02x d @ hex02x c @ hex02x b @ hex02x a @ '':'' @
                      hex02x (PutUint16 port ! 1) @ hex02x (PutUint16 port ! 0)))"
proof -
  have key: "checkMPTCP lookup h port =
      lookup (ToUpper (hex02x d @ hex02x c @ hex02x b @ hex02x a @ '':'' @
                       hex02x (PutUint16 port ! 1) @ hex02x (PutUint16 port ! 0)))"
    if "ParseIP h = IPv4 a b c d" for h
    using that
    by (simp add: checkMPTCP_def hostToHex_IPv4 JoinHostPort_hex u16PortToHex_def Let_def)
  show ?thesis
    using key [of host] key [of "dotted a b c d"]
    by (simp add: hostToHex_IPv4 ParseIP_dotted)
qed

text \<open>
  The vector of C1: host \<open>127.0.0.1\<close> with port 80 gives the host half \<open>0100007f\<close> and
  the key \<open>0100007F:0050\<close>, whatever the lookup function.
\<close>

theorem checkMPTCP_encodes_IPv4_witness:
  "ParseIP ''127.0.0.1'' = IPv4 127 0 0 1 \<and>
   dotted 127 0 0 1 = ''127.0.0.1'' \<and>
   hostToHex ''127.0.0.1'' = Inr ''0100007f'' \<and>
   (\<forall>lookup. checkMPTCP lookup ''127.0.0.1'' 80 = lookup ''0100007F:0050'')"
proof -
  have p: "ParseIP ''127.0.0.1'' = IPv4 127 0 0 1"
    by code_simp
  have q: "dotted 127 0 0 1 = ''127.0.0.1''"
    by code_simp
  have h: "hex02x (1 :: byte) @ hex02x (0 :: byte) @ hex02x (0 :: byte) @ hex02x (127 :: byte) =
      ''0100007f''"
    by code_simp
  have k: "ToUpper (hex02x (1 :: byte) @ hex02x (0 :: byte) @ hex02x (0 :: byte) @
      hex02x (127 :: byte) @ '':'' @ hex02x (PutUint16 80 ! 1) @ hex02x (PutUint16 80 ! 0)) =
      ''0100007F:0050''"
    by code_simp
  have "hostToHex ''127.0.0.1'' = Inr ''0100007f'' \<and>
      checkMPTCP lookup ''127.0.0.1'' 80 = lookup ''0100007F:0050''" for lookup
    using checkMPTCP_encodes_IPv4 [of "''127.0.0.1''" 127 0 0 1 lookup 80] p
    unfolding h k by simp
  with p q show ?thesis
    by simp
qed

text \<open>
  C2 (as amended). \<open>hostToHex\<close> asks \<open>To4\<close> first, and \<open>To4\<close> accepts a 16-byte
  address that starts with the IPv4-in-IPv6 prefix (ten zero bytes, then \<open>ff ff\<close>).
  So the encoder fails with \<open>ErrIPv6NotImplemented\<close> exactly for the hosts that parse
  to a 16-byte address without that prefix; a host that parses to an address with the
  prefix, such as an IPv4-mapped IPv6 literal, gets the IPv4 encoding of its last
  four bytes.
\<close>

theorem hostToHex_IPv6:
  "(hostToHex host = Inl ErrIPv6NotImplemented) =
     (length (ParseIP host) = 16 \<and> take 12 (ParseIP host) \<noteq> v4InV6Prefix) \<and>
   (length (ParseIP host) = 16 \<and> take 12 (ParseIP host) = v4InV6Prefix \<longrightarrow>
      hostToHex host =
        Inr (hex02x (ParseIP host ! 15) @ hex02x (ParseIP host ! 14) @
             hex02x (ParseIP host ! 13) @ hex02x (ParseIP host ! 12)))"
  by (simp add: hostToHex_cases Let_def)

theorem hostToHex_IPv6_witness:
  "length (ParseIP ''::1'') = 16 \<and>
   take 12 (ParseIP ''::1'') \<noteq> v4InV6Prefix \<and>
   hostToHex ''::1'' = Inl ErrIPv6NotImplemented \<and>
   length (ParseIP ''::ffff:1.2.3.4'') = 16 \<and>
   take 12 (ParseIP ''::ffff:1.2.3.4'') = v4InV6Prefix \<and>
   hostToHex ''::ffff:1.2.3.4'' = Inr ''04030201''"
proof -
  have p1: "ParseIP ''::1'' = [0, 0, 0, 0, 0, 0, 0, 0, 0, 0, 0, 0, 0, 0, 0, 1]"
    by code_simp
  have p2: "ParseIP ''::ffff:1.2.3.4'' = [0, 0, 0, 0, 0, 0, 0, 0, 0, 0, 0xff, 0xff, 1, 2, 3, 4]"
    by code_simp
  have h: "hex02x (4 :: byte) @ hex02x (3 :: byte) @ hex02x (2 :: byte) @ hex02x (1 :: byte) =
      ''04030201''"
    by code_simp
  show ?thesis
    using hostToHex_IPv6 [of "''::1''"] hostToHex_IPv6 [of "''::ffff:1.2.3.4''"]
    unfolding p1 p2 by (simp add: v4InV6Prefix_def h)
qed

text \<open>
  C2 as the claim states it fails at the IPv4-mapped literal \<open>::ffff:1.2.3.4\<close>: the
  IPv6 parser accepts it, and the encoder returns the IPv4 encoding \<open>04030201\<close> with
  no error.
\<close>

theorem hostToHex_v4mapped_counterexample:
  "parseIPv6 ''::ffff:1.2.3.4'' = [0, 0, 0, 0, 0, 0, 0, 0, 0, 0, 0xff, 0xff, 1, 2, 3, 4] \<and>
   ParseIP ''::ffff:1.2.3.4'' = parseIPv6 ''::ffff:1.2.3.4'' \<and>
   hostToHex ''::ffff:1.2.3.4'' = Inr ''04030201'' \<and>
   hostToHex ''::ffff:1.2.3.4'' \<noteq> Inl ErrIPv6NotImplemented"
  by code_simp

text \<open>
  C3. A read failure in the middle of the table, after a valid header line, should
  come back as the error of the table scanner. The code does not do that: the loop of
  \<open>mptcpTableReaderLinux\<close> is meant to run until the end of the input or a matching
  row, but it never asks the scanner why \<open>Scan\<close> returned \<open>false\<close>. On the table
  \<open>tableNone\<close> (the header and one row) read from a reader that fails with \<open>EIO\<close>
  after its last byte, the first \<open>Scan\<close> delivers the header, the second the row,
  the third returns \<open>false\<close> and leaves the failure in the scanner, and the table
  scanner returns \<open>(false, nil)\<close>: it reports that no row matches although the
  table was not read to its end. This is a defect of the code.
\<close>

theorem mptcpTableReaderLinux_read_failure_dropped:
  "Scan (NewScanner \<lparr>rdata = tableNone, rerr = Some (OSError ''EIO'')\<rparr>) =
     (True, \<lparr>sc_pending = rowA @ newline, sc_end = Some (OSError ''EIO''),
             sc_token = mptcpTableHeader, sc_err = None\<rparr>) \<and>
   Scan \<lparr>sc_pending = rowA @ newline, sc_end = Some (OSError ''EIO''),
         sc_token = mptcpTableHeader, sc_err = None\<rparr> =
     (True, \<lparr>sc_pending = [], sc_end = Some (OSError ''EIO''),
             sc_token = rowA, sc_err = None\<rparr>) \<and>
   Scan \<lparr>sc_pending = [], sc_end = Some (OSError ''EIO''), sc_token = rowA, sc_err = None\<rparr> =
     (False, \<lparr>sc_pending = [], sc_end = Some (OSError ''EIO''), sc_token = [],
              sc_err = Some (OSError ''EIO'')\<rparr>) \<and>
   newMPTCPTableEntry (Fields rowA) = Inr \<lparr>IsIPv6 = False, RemoteAddr = ''0202000A:C7A8''\<rparr> \<and>
   mptcpTableReaderLinux \<lparr>rdata = tableNone, rerr = Some (OSError ''EIO'')\<rparr> ''0100007F:0050'' =
     (False, None)"
proof -
  have 1: "Scan (NewScanner \<lparr>rdata = tableNone, rerr = Some (OSError ''EIO'')\<rparr>) =
      (True, \<lparr>sc_pending = rowA @ newline, sc_end = Some (OSError ''EIO''),
              sc_token = mptcpTableHeader, sc_err = None\<rparr>)"
    by code_simp
  have 2: "Scan \<lparr>sc_pending = rowA @ newline, sc_end = Some (OSError ''EIO''),
        sc_token = mptcpTableHeader, sc_err = None\<rparr> =
      (True, \<lparr>sc_pending = [], sc_end = Some (OSError ''EIO''),
              sc_token = rowA, sc_err = None\<rparr>)"
    by code_simp
  have 3: "Scan \<lparr>sc_pending = [], sc_end = Some (OSError ''EIO''), sc_token = rowA,
        sc_err = None\<rparr> =
      (False, \<lparr>sc_pending = [], sc_end = Some (OSError ''EIO''), sc_token = [],
               sc_err = Some (OSError ''EIO'')\<rparr>)"
    by code_simp
  have 4: "mptcpTableReaderLinux \<lparr>rdata = tableNone, rerr = Some (OSError ''EIO'')\<rparr>
      ''0100007F:0050'' = (False, None)"
    by (simp add: mptcpTableReaderLinux_lines
        scannerLines_reader [of tableNone "Some (OSError ''EIO'')"] tableNone_lines rowA_entry)
  from 1 2 3 4 rowA_entry show ?thesis
    by simp
qed

text \<open>
  C4 (as amended). The port half of the key is not least-significant byte first.
  \<open>u16PortToHex\<close> stores the port little-endian and then prints \<open>portBuf[1]\<close> before
  \<open>portBuf[0]\<close>, so for every 16-bit port the result is the two hex digits of the
  most significant byte followed by the two hex digits of the least significant
  byte: the port as a four-digit hexadecimal number, most significant digit first.
  The key ends with these four digits in upper case, whatever the host half.
\<close>

theorem u16PortToHex_most_significant_first:
  "u16PortToHex p = hex02x (ucast (drop_bit 8 p)) @ hex02x (ucast p) \<and>
   u16PortToHex p =
     [hexdigit (unat p div 4096), hexdigit (unat p div 256 mod 16),
      hexdigit (unat p div 16 mod 16), hexdigit (unat p mod 16)] \<and>
   ToUpper (JoinHostPort hexHost (u16PortToHex p)) =
     ToUpper (JoinHostPort hexHost []) @
     [hexdigitUpper (unat p div 4096), hexdigitUpper (unat p div 256 mod 16),
      hexdigitUpper (unat p div 16 mod 16), hexdigitUpper (unat p mod 16)]"
proof -
  have a: "unat p div 256 div 16 = unat p div 4096"
    using div_mult2_eq [of "unat p" 256 16] by simp
  have "unat p mod 256 = 16 * (unat p div 16 mod 16) + unat p mod 16"
    using mod_mult2_eq [of "unat p" 16 16] by simp
  then have b: "unat p mod 256 div 16 = unat p div 16 mod 16"
    by simp
  have c: "unat p mod 256 mod 16 = unat p mod 16"
    by (simp add: mod_mod_cancel)
  have hi: "hex02x (ucast (drop_bit 8 p)) =
      [hexdigit (unat p div 256 div 16), hexdigit (unat p div 256 mod 16)]"
    unfolding hex02x_def unat_ucast_high_byte by (rule refl)
  have lo: "hex02x (ucast p) =
      [hexdigit (unat p mod 256 div 16), hexdigit (unat p mod 256 mod 16)]"
    unfolding hex02x_def unat_ucast_low_byte by (rule refl)
  have digits: "u16PortToHex p =
     [hexdigit (unat p div 4096), hexdigit (unat p div 256 mod 16),
      hexdigit (unat p div 16 mod 16), hexdigit (unat p mod 16)]"
    unfolding u16PortToHex_bytes hi lo a b c by simp
  have "unat p < 65536"
    using unsigned_less [of p, where ?'a = nat] by simp
  then have d: "unat p div 4096 < 16"
    by (simp add: div_less_iff_less_mult)
  have "ToUpper (u16PortToHex p) =
     [hexdigitUpper (unat p div 4096), hexdigitUpper (unat p div 256 mod 16),
      hexdigitUpper (unat p div 16 mod 16), hexdigitUpper (unat p mod 16)]"
    using d by (simp add: digits ToUpper_def toUpperByte_hexdigit)
  then have key: "ToUpper (JoinHostPort hexHost (u16PortToHex p)) =
     ToUpper (JoinHostPort hexHost []) @
     [hexdigitUpper (unat p div 4096), hexdigitUpper (unat p div 256 mod 16),
      hexdigitUpper (unat p div 16 mod 16), hexdigitUpper (unat p mod 16)]"
    using JoinHostPort_port [of hexHost "u16PortToHex p"] by (simp add: ToUpper_append)
  from u16PortToHex_bytes [of p] digits key show ?thesis
    by simp
qed

text \<open>
  C4 as the claim states it fails at port 80 (\<open>0x0050\<close>): the encoder gives \<open>0050\<close>,
  while the least significant byte followed by the most significant byte would be
  \<open>5000\<close>.
\<close>

theorem u16PortToHex_80_counterexample:
  "u16PortToHex 80 = ''0050'' \<and>
   ToUpper (JoinHostPort ''0100007f'' (u16PortToHex 80)) = ''0100007F:0050'' \<and>
   hex02x (ucast (80 :: 16 word)) @ hex02x (ucast (drop_bit 8 (80 :: 16 word))) = ''5000'' \<and>
   u16PortToHex 80 \<noteq> hex02x (ucast (80 :: 16 word)) @ hex02x (ucast (drop_bit 8 (80 :: 16 word)))"
  by code_simp

text \<open>
  C5. The rows are the lines the scanner hands out after the header. (1) If the rows
  before some row all parse without matching and that row parses with a remote
  address equal to the target, the result is \<open>(true, nil)\<close> whatever follows the row:
  nothing after it is looked at. (2) If the rows before some row all parse without
  matching and that row fails to parse, the result is that parse error, again
  whatever follows. (3) If every row parses and none matches, the result is
  \<open>(false, nil)\<close>.
\<close>

theorem mptcpTableReaderLinux_scan:
  "(scannerLines (NewScanner r) = mptcpTableHeader # pre @ row # rest \<and>
    (\<forall>l \<in> set pre. \<exists>m. newMPTCPTableEntry (Fields l) = Inr m \<and> RemoteAddr m \<noteq> k) \<and>
    (\<exists>m. newMPTCPTableEntry (Fields row) = Inr m \<and> RemoteAddr m = k) \<longrightarrow>
      mptcpTableReaderLinux r k = (True, None)) \<and>
   (scannerLines (NewScanner r) = mptcpTableHeader # pre @ row # rest \<and>
    (\<forall>l \<in> set pre. \<exists>m. newMPTCPTableEntry (Fields l) = Inr m \<and> RemoteAddr m \<noteq> k) \<and>
    newMPTCPTableEntry (Fields row) = Inl e \<longrightarrow>
      mptcpTableReaderLinux r k = (False, Some e)) \<and>
   (scannerLines (NewScanner r) = mptcpTableHeader # pre \<and>
    (\<forall>l \<in> set pre. \<exists>m. newMPTCPTableEntry (Fields l) = Inr m \<and> RemoteAddr m \<noteq> k) \<longrightarrow>
      mptcpTableReaderLinux r k = (False, None))"
proof (intro conjI impI)
  assume a: "scannerLines (NewScanner r) = mptcpTableHeader # pre @ row # rest \<and>
    (\<forall>l \<in> set pre. \<exists>m. newMPTCPTableEntry (Fields l) = Inr m \<and> RemoteAddr m \<noteq> k) \<and>
    (\<exists>m. newMPTCPTableEntry (Fields row) = Inr m \<and> RemoteAddr m = k)"
  then have "rowsResult (pre @ row # rest) k = rowsResult (row # rest) k"
    by (intro rowsResult_skip) simp
  with a show "mptcpTableReaderLinux r k = (True, None)"
    by (auto simp: mptcpTableReaderLinux_lines)
next
  assume a: "scannerLines (NewScanner r) = mptcpTableHeader # pre @ row # rest \<and>
    (\<forall>l \<in> set pre. \<exists>m. newMPTCPTableEntry (Fields l) = Inr m \<and> RemoteAddr m \<noteq> k) \<and>
    newMPTCPTableEntry (Fields row) = Inl e"
  then have "rowsResult (pre @ row # rest) k = rowsResult (row # rest) k"
    by (intro rowsResult_skip) simp
  with a show "mptcpTableReaderLinux r k = (False, Some e)"
    by (auto simp: mptcpTableReaderLinux_lines)
next
  assume a: "scannerLines (NewScanner r) = mptcpTableHeader # pre \<and>
    (\<forall>l \<in> set pre. \<exists>m. newMPTCPTableEntry (Fields l) = Inr m \<and> RemoteAddr m \<noteq> k)"
  then have "rowsResult pre k = (False, None)"
    by (intro rowsResult_none) simp
  with a show "mptcpTableReaderLinux r k = (False, None)"
    by (auto simp: mptcpTableReaderLinux_lines)
qed

theorem mptcpTableReaderLinux_scan_witness:
  "mptcpTableReaderLinux \<lparr>rdata = tableFound, rerr = None\<rparr> ''0100007F:0050'' = (True, None) \<and>
   mptcpTableReaderLinux \<lparr>rdata = tableBad, rerr = None\<rparr> ''0100007F:0050'' =
     (False, Some errInvalidMPTCPEntry) \<and>
   mptcpTableReaderLinux \<lparr>rdata = tableNone, rerr = None\<rparr> ''0100007F:0050'' = (False, None)"
proof -
  have 1: "mptcpTableReaderLinux \<lparr>rdata = tableFound, rerr = None\<rparr> ''0100007F:0050'' =
      (True, None)"
    using mptcpTableReaderLinux_scan [of "\<lparr>rdata = tableFound, rerr = None\<rparr>"
        "[rowA]" rowB "[rowShort]" "''0100007F:0050''"]
    by (simp add: tableFound_lines rowA_entry rowB_entry)
  have 2: "mptcpTableReaderLinux \<lparr>rdata = tableBad, rerr = None\<rparr> ''0100007F:0050'' =
      (False, Some errInvalidMPTCPEntry)"
    using mptcpTableReaderLinux_scan [of "\<lparr>rdata = tableBad, rerr = None\<rparr>"
        "[rowA]" rowShort "[rowB]" "''0100007F:0050''" errInvalidMPTCPEntry]
    by (simp add: tableBad_lines rowA_entry rowShort_entry)
  have 3: "mptcpTableReaderLinux \<lparr>rdata = tableNone, rerr = None\<rparr> ''0100007F:0050'' =
      (False, None)"
    using mptcpTableReaderLinux_scan [of "\<lparr>rdata = tableNone, rerr = None\<rparr>"
        "[rowA]" _ _ "''0100007F:0050''"]
    by (simp add: tableNone_lines rowA_entry)
  from 1 2 3 show ?thesis
    by simp
qed

text \<open>
  C6. The row parser fails, with \<open>errInvalidMPTCPEntry\<close>, exactly when it is not given
  ten fields. Given ten fields it succeeds with the entry whose \<open>IsIPv6\<close> says
  whether field 3 is the string \<open>1\<close> and whose \<open>RemoteAddr\<close> is field 5 unchanged.
\<close>

theorem newMPTCPTableEntry_spec:
  "(newMPTCPTableEntry flds = Inl errInvalidMPTCPEntry) = (length flds \<noteq> 10) \<and>
   (length flds = 10 \<longrightarrow>
      newMPTCPTableEntry flds = Inr \<lparr>IsIPv6 = (flds ! 3 = ''1''), RemoteAddr = flds ! 5\<rparr>)"
  by (simp add: newMPTCPTableEntry_def mptcpTableColumns_def Let_def)

theorem newMPTCPTableEntry_spec_witness:
  "newMPTCPTableEntry
     [''0:'', ''1A2B3C4D'', ''5E6F7A8B'', ''0'', ''0100007F:1F90'', ''0100007f:0050'',
      ''01'', ''02'', ''00000000:00000000'', ''26247''] =
     Inr \<lparr>IsIPv6 = False, RemoteAddr = ''0100007f:0050''\<rparr> \<and>
   newMPTCPTableEntry
     [''1:'', ''1A2B3C4D'', ''5E6F7A8B'', ''1'', ''L'', ''R'', ''01'', ''02'', ''Q'', ''7''] =
     Inr \<lparr>IsIPv6 = True, RemoteAddr = ''R''\<rparr> \<and>
   newMPTCPTableEntry
     [''0:'', ''1A2B3C4D'', ''5E6F7A8B'', ''0'', ''0100007F:1F90'', ''0100007F:0050'',
      ''01'', ''02'', ''00000000:00000000''] = Inl errInvalidMPTCPEntry \<and>
   newMPTCPTableEntry [] = Inl errInvalidMPTCPEntry"
  using
    newMPTCPTableEntry_spec [of "[''0:'', ''1A2B3C4D'', ''5E6F7A8B'', ''0'', ''0100007F:1F90'',
      ''0100007f:0050'', ''01'', ''02'', ''00000000:00000000'', ''26247'']"]
    newMPTCPTableEntry_spec [of "[''1:'', ''1A2B3C4D'', ''5E6F7A8B'', ''1'', ''L'', ''R'',
      ''01'', ''02'', ''Q'', ''7'']"]
    newMPTCPTableEntry_spec [of "[''0:'', ''1A2B3C4D'', ''5E6F7A8B'', ''0'', ''0100007F:1F90'',
      ''0100007F:0050'', ''01'', ''02'', ''00000000:00000000'']"]
    newMPTCPTableEntry_spec [of "[]"]
  by simp




text \<open>
  C8 (as amended). The comparison is equality of strings: only the key is
  upper-cased, the remote address of a row is compared as the table has it. When
  the host encodes without error: (1) if some row parses to an entry whose remote
  address is exactly the key, and every row before it parses, the query returns
  \<open>(true, nil)\<close>; (2) if every row parses and no remote address is exactly the key,
  the query returns \<open>(false, nil)\<close>, also when a remote address differs from the key
  in letter case only.
\<close>

theorem checkMPTCP_exact_match:
  "(hostToHex host = Inr hexHost \<and>
    scannerLines (NewScanner r) = mptcpTableHeader # pre @ row # rest \<and>
    (\<forall>l \<in> set pre. \<exists>m. newMPTCPTableEntry (Fields l) = Inr m) \<and>
    (\<exists>m. newMPTCPTableEntry (Fields row) = Inr m \<and>
         RemoteAddr m = ToUpper (JoinHostPort hexHost (u16PortToHex port))) \<longrightarrow>
      checkMPTCP (lookupMPTCPLinux (Inr r)) host port = (True, None)) \<and>
   (hostToHex host = Inr hexHost \<and>
    scannerLines (NewScanner r) = mptcpTableHeader # rows \<and>
    (\<forall>l \<in> set rows. \<exists>m. newMPTCPTableEntry (Fields l) = Inr m \<and>
         RemoteAddr m \<noteq> ToUpper (JoinHostPort hexHost (u16PortToHex port))) \<longrightarrow>
      checkMPTCP (lookupMPTCPLinux (Inr r)) host port = (False, None))"
proof (intro conjI impI)
  let ?key = "ToUpper (JoinHostPort hexHost (u16PortToHex port))"
  assume a: "hostToHex host = Inr hexHost \<and>
    scannerLines (NewScanner r) = mptcpTableHeader # pre @ row # rest \<and>
    (\<forall>l \<in> set pre. \<exists>m. newMPTCPTableEntry (Fields l) = Inr m) \<and>
    (\<exists>m. newMPTCPTableEntry (Fields row) = Inr m \<and> RemoteAddr m = ?key)"
  then obtain m where m: "newMPTCPTableEntry (Fields row) = Inr m" "RemoteAddr m = ?key"
    by blast
  from a have "\<forall>l \<in> set pre. \<exists>m. newMPTCPTableEntry (Fields l) = Inr m"
    by simp
  then have "rowsResult (pre @ row # rest) ?key = (True, None)"
    using m by (rule rowsResult_found)
  with a show "checkMPTCP (lookupMPTCPLinux (Inr r)) host port = (True, None)"
    by (simp add: checkMPTCP_def lookupMPTCPLinux_def mptcpTableReaderLinux_lines)
next
  let ?key = "ToUpper (JoinHostPort hexHost (u16PortToHex port))"
  assume a: "hostToHex host = Inr hexHost \<and>
    scannerLines (NewScanner r) = mptcpTableHeader # rows \<and>
    (\<forall>l \<in> set rows. \<exists>m. newMPTCPTableEntry (Fields l) = Inr m \<and> RemoteAddr m \<noteq> ?key)"
  then have "rowsResult rows ?key = (False, None)"
    by (intro rowsResult_none) simp
  with a show "checkMPTCP (lookupMPTCPLinux (Inr r)) host port = (False, None)"
    by (simp add: checkMPTCP_def lookupMPTCPLinux_def mptcpTableReaderLinux_lines)
qed

theorem checkMPTCP_exact_match_witness:
  "checkMPTCP (lookupMPTCPLinux (Inr \<lparr>rdata = tableFound, rerr = None\<rparr>)) ''127.0.0.1'' 80 =
     (True, None) \<and>
   checkMPTCP (lookupMPTCPLinux (Inr \<lparr>rdata = tableLower, rerr = None\<rparr>)) ''127.0.0.1'' 80 =
     (False, None)"
proof -
  have 1: "checkMPTCP (lookupMPTCPLinux (Inr \<lparr>rdata = tableFound, rerr = None\<rparr>))
      ''127.0.0.1'' 80 = (True, None)"
    using checkMPTCP_exact_match [of "''127.0.0.1''" "''0100007f''"
        "\<lparr>rdata = tableFound, rerr = None\<rparr>" "[rowA]" rowB "[rowShort]" 80]
    by (simp add: localhost_80 tableFound_lines rowA_entry rowB_entry)
  have 2: "checkMPTCP (lookupMPTCPLinux (Inr \<lparr>rdata = tableLower, rerr = None\<rparr>))
      ''127.0.0.1'' 80 = (False, None)"
    using checkMPTCP_exact_match [of "''127.0.0.1''" "''0100007f''"
        "\<lparr>rdata = tableLower, rerr = None\<rparr>" _ _ _ 80 "[rowA, rowB_lower]"]
    by (simp add: localhost_80 tableLower_lines rowA_entry rowB_lower_entry)
  from 1 2 show ?thesis
    by simp
qed

text \<open>
  C8 as the claim states it fails on \<open>tableLower\<close>: its second row parses to an entry
  whose remote address \<open>0100007f:0050\<close> is the lower-case form of the key of
  127.0.0.1:80 and becomes the key when upper-cased, and the query returns
  \<open>(false, nil)\<close>.
\<close>

theorem checkMPTCP_lowercase_counterexample:
  "scannerLines (NewScanner \<lparr>rdata = tableLower, rerr = None\<rparr>) =
     [mptcpTableHeader, rowA, rowB_lower] \<and>
   newMPTCPTableEntry (Fields rowB_lower) =
     Inr \<lparr>IsIPv6 = False, RemoteAddr = ''0100007f:0050''\<rparr> \<and>
   hostToHex ''127.0.0.1'' = Inr ''0100007f'' \<and>
   ToUpper (JoinHostPort ''0100007f'' (u16PortToHex 80)) = ''0100007F:0050'' \<and>
   ToUpper ''0100007f:0050'' = ''0100007F:0050'' \<and>
   checkMPTCP (lookupMPTCPLinux (Inr \<lparr>rdata = tableLower, rerr = None\<rparr>)) ''127.0.0.1'' 80 =
     (False, None)"
proof -
  have up: "ToUpper ''0100007f:0050'' = ''0100007F:0050''"
    by code_simp
  have "checkMPTCP (lookupMPTCPLinux (Inr \<lparr>rdata = tableLower, rerr = None\<rparr>))
      ''127.0.0.1'' 80 = (False, None)"
    by (simp add: checkMPTCP_def lookupMPTCPLinux_def localhost_80 mptcpTableReaderLinux_lines
        tableLower_lines rowA_entry rowB_lower_entry)
  with up tableLower_lines rowB_lower_entry localhost_80 show ?thesis
    by simp
qed

text \<open>
  C9 (as amended). In the build for other platforms \<open>checkMPTCP\<close> returns
  \<open>(false, ErrNotImplemented)\<close> for every host and port, and \<open>mptcpEnabled\<close> returns
  \<open>(false, nil)\<close>: it reports "not enabled" without an error, and so not
  \<open>ErrNotImplemented\<close>.
\<close>

theorem others_results:
  "checkMPTCP_others host port = (False, Some ErrNotImplemented) \<and>
   mptcpEnabled_others = (False, None)"
  by (simp add: checkMPTCP_others_def mptcpEnabled_others_def)

text \<open>
  C9 as the claim states it fails for \<open>mptcpEnabled\<close>, which has no input: its error
  is \<open>nil\<close>.
\<close>

theorem mptcpEnabled_others_counterexample:
  "mptcpEnabled_others \<noteq> (False, Some ErrNotImplemented) \<and> snd mptcpEnabled_others = None"
  by (simp add: mptcpEnabled_others_def)

text \<open>
  C10 (as amended). Take a stream that begins with the header line and goes on with
  newline-terminated lines, each shorter than \<open>MaxScanTokenSize\<close> (64 KiB), none of
  which is a row that parses to an entry whose remote address is the target. If the
  next line is made of white-space runes only (the empty line included) and is
  shorter than \<open>MaxScanTokenSize\<close> too, it splits into no fields and the result is
  \<open>errInvalidMPTCPEntry\<close>: (1) when the line ends with a newline, whatever follows
  it, and (2) when the line is not empty and ends the stream.
\<close>

theorem mptcpTableReaderLinux_blank_line:
  "(rdata r = concat (map (\<lambda>l. l @ [CHR 0x0A]) (mptcpTableHeader # pre)) @
              concat ws @ CHR 0x0A # rest \<and>
    (\<forall>l \<in> set pre. CHR 0x0A \<notin> set l \<and> length l < MaxScanTokenSize) \<and>
    (\<forall>l \<in> set pre. \<not> (\<exists>m. newMPTCPTableEntry (Fields (dropCR l)) = Inr m \<and>
                                  RemoteAddr m = k)) \<and>
    set ws \<subseteq> set spaceRunes \<and> CHR 0x0A \<notin> set (concat ws) \<and>
    length (concat ws) < MaxScanTokenSize \<longrightarrow>
      Fields (concat ws) = [] \<and>
      mptcpTableReaderLinux r k = (False, Some errInvalidMPTCPEntry)) \<and>
   (rdata r = concat (map (\<lambda>l. l @ [CHR 0x0A]) (mptcpTableHeader # pre)) @ concat ws \<and>
    concat ws \<noteq> [] \<and>
    (\<forall>l \<in> set pre. CHR 0x0A \<notin> set l \<and> length l < MaxScanTokenSize) \<and>
    (\<forall>l \<in> set pre. \<not> (\<exists>m. newMPTCPTableEntry (Fields (dropCR l)) = Inr m \<and>
                                  RemoteAddr m = k)) \<and>
    set ws \<subseteq> set spaceRunes \<and> CHR 0x0A \<notin> set (concat ws) \<and>
    length (concat ws) < MaxScanTokenSize \<longrightarrow>
      Fields (concat ws) = [] \<and>
      mptcpTableReaderLinux r k = (False, Some errInvalidMPTCPEntry))"
proof (intro conjI impI)
  assume a: "rdata r = concat (map (\<lambda>l. l @ [CHR 0x0A]) (mptcpTableHeader # pre)) @
              concat ws @ CHR 0x0A # rest \<and>
    (\<forall>l \<in> set pre. CHR 0x0A \<notin> set l \<and> length l < MaxScanTokenSize) \<and>
    (\<forall>l \<in> set pre. \<not> (\<exists>m. newMPTCPTableEntry (Fields (dropCR l)) = Inr m \<and>
                                  RemoteAddr m = k)) \<and>
    set ws \<subseteq> set spaceRunes \<and> CHR 0x0A \<notin> set (concat ws) \<and>
    length (concat ws) < MaxScanTokenSize"
  then show "Fields (concat ws) = []"
    by (intro Fields_only_space) simp
  let ?s = "NewScanner r"
  let ?t = "?s\<lparr>sc_pending := concat ws @ CHR 0x0A # rest\<rparr>"
  have short: "\<forall>l \<in> set (mptcpTableHeader # pre). CHR 0x0A \<notin> set l \<and> length l < MaxScanTokenSize"
    using a header_plain by simp
  have "sc_pending ?s = concat (map (\<lambda>l. l @ [CHR 0x0A]) (mptcpTableHeader # pre)) @
      (concat ws @ CHR 0x0A # rest)"
    using a by (simp add: NewScanner_def)
  with short have "scannerLines ?s = map dropCR (mptcpTableHeader # pre) @ scannerLines ?t"
    by (rule scannerLines_prefix)
  moreover have "scannerLines ?t = dropCR (concat ws) #
      scannerLines (?t\<lparr>sc_pending := rest, sc_token := dropCR (concat ws)\<rparr>)"
    using a by (intro scannerLines_line) simp_all
  ultimately have lines: "scannerLines ?s = mptcpTableHeader # map dropCR pre @ dropCR (concat ws) #
      scannerLines (?t\<lparr>sc_pending := rest, sc_token := dropCR (concat ws)\<rparr>)"
    using header_plain by simp
  have blank: "Fields (dropCR (concat ws)) = []"
    using a by (intro Fields_dropCR_only_space) simp
  have pre: "\<forall>l \<in> set (map dropCR pre).
      \<not> (\<exists>m. newMPTCPTableEntry (Fields l) = Inr m \<and> RemoteAddr m = k)"
    using a by simp
  from lines blank pre show "mptcpTableReaderLinux r k = (False, Some errInvalidMPTCPEntry)"
    by (rule blank_line_among_lines)
next
  assume a: "rdata r = concat (map (\<lambda>l. l @ [CHR 0x0A]) (mptcpTableHeader # pre)) @ concat ws \<and>
    concat ws \<noteq> [] \<and>
    (\<forall>l \<in> set pre. CHR 0x0A \<notin> set l \<and> length l < MaxScanTokenSize) \<and>
    (\<forall>l \<in> set pre. \<not> (\<exists>m. newMPTCPTableEntry (Fields (dropCR l)) = Inr m \<and>
                                  RemoteAddr m = k)) \<and>
    set ws \<subseteq> set spaceRunes \<and> CHR 0x0A \<notin> set (concat ws) \<and>
    length (concat ws) < MaxScanTokenSize"
  then show "Fields (concat ws) = []"
    by (intro Fields_only_space) simp
  let ?s = "NewScanner r"
  have short: "\<forall>l \<in> set (mptcpTableHeader # pre). CHR 0x0A \<notin> set l \<and> length l < MaxScanTokenSize"
    using a header_plain by simp
  have "sc_pending ?s = concat (map (\<lambda>l. l @ [CHR 0x0A]) (mptcpTableHeader # pre)) @ concat ws"
    using a by (simp add: NewScanner_def)
  with short a have "scannerLines ?s = map dropCR (mptcpTableHeader # pre) @ [dropCR (concat ws)]"
    by (intro scannerLines_unterminated) simp_all
  then have lines: "scannerLines ?s = mptcpTableHeader # map dropCR pre @ dropCR (concat ws) # []"
    using header_plain by simp
  have blank: "Fields (dropCR (concat ws)) = []"
    using a by (intro Fields_dropCR_only_space) simp
  have pre: "\<forall>l \<in> set (map dropCR pre).
      \<not> (\<exists>m. newMPTCPTableEntry (Fields l) = Inr m \<and> RemoteAddr m = k)"
    using a by simp
  from lines blank pre show "mptcpTableReaderLinux r k = (False, Some errInvalidMPTCPEntry)"
    by (rule blank_line_among_lines)
qed

theorem mptcpTableReaderLinux_blank_line_witness:
  "mptcpTableReaderLinux \<lparr>rdata = tableBlank, rerr = None\<rparr> ''0100007F:0050'' =
     (False, Some errInvalidMPTCPEntry) \<and>
   mptcpTableReaderLinux \<lparr>rdata = tableSpaces, rerr = None\<rparr> ''0100007F:0050'' =
     (False, Some errInvalidMPTCPEntry) \<and>
   mptcpTableReaderLinux
     \<lparr>rdata = mptcpTableHeader @ newline @ rowA @ newline @ [CHR 0x20, CHR 0x09], rerr = None\<rparr>
     ''0100007F:0050'' = (False, Some errInvalidMPTCPEntry)"
proof -
  have rowA: "CHR 0x0A \<notin> set rowA" "length rowA < MaxScanTokenSize" "dropCR rowA = rowA"
    using sample_lines_plain by simp_all
  have small: "Suc (Suc (Suc 0)) < MaxScanTokenSize" "Suc (Suc 0) < MaxScanTokenSize"
    "0 < MaxScanTokenSize"
    by (simp_all add: MaxScanTokenSize_def)
  have 1: "mptcpTableReaderLinux \<lparr>rdata = tableBlank, rerr = None\<rparr> ''0100007F:0050'' =
      (False, Some errInvalidMPTCPEntry)"
    using mptcpTableReaderLinux_blank_line
      [where r = "\<lparr>rdata = tableBlank, rerr = None\<rparr>" and pre = "[rowA]" and ws = "[]"
         and rest = "[]" and k = "''0100007F:0050''"]
    by (simp add: tableBlank_def newline_def rowA rowA_entry small)
  have 2: "mptcpTableReaderLinux \<lparr>rdata = tableSpaces, rerr = None\<rparr> ''0100007F:0050'' =
      (False, Some errInvalidMPTCPEntry)"
    using mptcpTableReaderLinux_blank_line
      [where r = "\<lparr>rdata = tableSpaces, rerr = None\<rparr>" and pre = "[rowA]"
         and ws = "[[CHR 0x20], [CHR 0x09], [CHR 0x20]]" and rest = "rowB @ newline"
         and k = "''0100007F:0050''"]
    by (simp add: tableSpaces_def newline_def rowA rowA_entry small spaceRunes_def)
  have 3: "mptcpTableReaderLinux
      \<lparr>rdata = mptcpTableHeader @ newline @ rowA @ newline @ [CHR 0x20, CHR 0x09], rerr = None\<rparr>
      ''0100007F:0050'' = (False, Some errInvalidMPTCPEntry)"
    using mptcpTableReaderLinux_blank_line
      [where r = "\<lparr>rdata = mptcpTableHeader @ newline @ rowA @ newline @ [CHR 0x20, CHR 0x09],
                   rerr = None\<rparr>"
         and pre = "[rowA]" and ws = "[[CHR 0x20], [CHR 0x09]]" and k = "''0100007F:0050''"]
    by (simp add: newline_def rowA rowA_entry small spaceRunes_def)
  from 1 2 3 show ?thesis
    by simp
qed

text \<open>
  C10 as the claim states it fails on the header followed by a line of
  \<open>MaxScanTokenSize\<close> spaces: the line consists of white space only and has no
  fields, no row comes before it, and the table scanner returns \<open>(false, nil)\<close>, not
  \<open>errInvalidMPTCPEntry\<close>.
\<close>

theorem mptcpTableReaderLinux_blank_line_counterexample:
  "Fields (replicate MaxScanTokenSize (CHR 0x20)) = [] \<and>
   newMPTCPTableEntry (Fields (replicate MaxScanTokenSize (CHR 0x20))) = Inl errInvalidMPTCPEntry \<and>
   mptcpTableReaderLinux
     \<lparr>rdata = mptcpTableHeader @ CHR 0x0A # replicate MaxScanTokenSize (CHR 0x20) @ [CHR 0x0A],
        rerr = None\<rparr>
     ''0100007F:0050'' = (False, None)"
proof -
  have "set (replicate MaxScanTokenSize [CHR 0x20]) \<subseteq> set spaceRunes"
    by (auto simp: spaceRunes_def)
  then have "Fields (concat (replicate MaxScanTokenSize [CHR 0x20])) = []"
    by (rule Fields_only_space)
  moreover have "concat (replicate MaxScanTokenSize [CHR 0x20]) =
      replicate MaxScanTokenSize (CHR 0x20)"
    by (induction MaxScanTokenSize) simp_all
  ultimately have f: "Fields (replicate MaxScanTokenSize (CHR 0x20)) = []"
    by simp
  then have e: "newMPTCPTableEntry (Fields (replicate MaxScanTokenSize (CHR 0x20))) =
      Inl errInvalidMPTCPEntry"
    by (simp add: newMPTCPTableEntry_def mptcpTableColumns_def)
  have "mptcpTableReaderLinux
      \<lparr>rdata = mptcpTableHeader @ CHR 0x0A # replicate MaxScanTokenSize (CHR 0x20) @ [CHR 0x0A],
         rerr = None\<rparr>
      ''0100007F:0050'' = (False, None)"
    using mptcpTableReaderLinux_long_line
      [where r = "\<lparr>rdata = mptcpTableHeader @ CHR 0x0A #
                     replicate MaxScanTokenSize (CHR 0x20) @ [CHR 0x0A], rerr = None\<rparr>"
         and k = "''0100007F:0050''"
         and rest = "replicate MaxScanTokenSize (CHR 0x20) @ [CHR 0x0A]"]
      long_line_first [of "CHR 0x20" "[]"]
    by simp
  with f e show ?thesis
    by simp
qed

section \<open>Further properties\<close>

text \<open>
  The encoder fails with \<open>ErrInvalidIPAddress\<close> exactly when \<open>ParseIP\<close> returns
  neither a 4-byte nor a 16-byte address, as it does for a host that is not an IP
  address at all; \<open>not-an-ip\<close> is such a host.
\<close>

theorem hostToHex_invalid:
  "(hostToHex host = Inl ErrInvalidIPAddress) =
     (length (ParseIP host) \<noteq> 4 \<and> length (ParseIP host) \<noteq> 16) \<and>
   ParseIP ''not-an-ip'' = [] \<and>
   hostToHex ''not-an-ip'' = Inl ErrInvalidIPAddress"
proof -
  have p: "ParseIP ''not-an-ip'' = []"
    by code_simp
  have "(hostToHex h = Inl ErrInvalidIPAddress) =
      (length (ParseIP h) \<noteq> 4 \<and> length (ParseIP h) \<noteq> 16)" for h
    by (simp add: hostToHex_cases Let_def)
  from this [of host] this [of "''not-an-ip''"] p show ?thesis
    by simp
qed

text \<open>
  \<open>checkMPTCP\<close> returns an error of the encoder unchanged and does not call the
  lookup function then; \<open>lookupMPTCPLinux\<close> returns a failure to open the table file
  unchanged, and otherwise what the table scanner returns.
\<close>

theorem checkMPTCP_propagates:
  "(hostToHex host = Inl e \<longrightarrow> checkMPTCP lookup host port = (False, Some e)) \<and>
   lookupMPTCPLinux (Inl e) k = (False, Some e) \<and>
   lookupMPTCPLinux (Inr r) k = mptcpTableReaderLinux r k"
  by (simp add: checkMPTCP_def lookupMPTCPLinux_def)

theorem checkMPTCP_propagates_witness:
  "hostToHex ''::1'' = Inl ErrIPv6NotImplemented \<and>
   (\<forall>lookup. checkMPTCP lookup ''::1'' 80 = (False, Some ErrIPv6NotImplemented))"
proof -
  have h: "hostToHex ''::1'' = Inl ErrIPv6NotImplemented"
    by code_simp
  have "checkMPTCP lookup ''::1'' 80 = (False, Some ErrIPv6NotImplemented)" for lookup
    using checkMPTCP_propagates [of "''::1''" ErrIPv6NotImplemented lookup 80] h by simp
  with h show ?thesis
    by simp
qed

text \<open>
  The capability probe (Linux) returns \<open>(true, nil)\<close> when \<open>os.Stat\<close> succeeds,
  \<open>(false, nil)\<close> when it fails with an error that \<open>os.IsNotExist\<close> accepts, and
  \<open>(false, err)\<close> for any other error \<open>err\<close>.
\<close>

theorem mptcpEnabled_cases:
  "mptcpEnabled None IsNotExist = (True, None) \<and>
   (IsNotExist e \<longrightarrow> mptcpEnabled (Some e) IsNotExist = (False, None)) \<and>
   (\<not> IsNotExist e \<longrightarrow> mptcpEnabled (Some e) IsNotExist = (False, Some e))"
  by (simp add: mptcpEnabled_def)

theorem mptcpEnabled_cases_witness:
  "mptcpEnabled (Some (OSError ''ENOENT'')) (\<lambda>e. e = OSError ''ENOENT'') = (False, None) \<and>
   mptcpEnabled (Some (OSError ''EACCES'')) (\<lambda>e. e = OSError ''ENOENT'') =
     (False, Some (OSError ''EACCES''))"
  using mptcpEnabled_cases [of "\<lambda>e. e = OSError ''ENOENT''" "OSError ''ENOENT''"]
    mptcpEnabled_cases [of "\<lambda>e. e = OSError ''ENOENT''" "OSError ''EACCES''"]
  by simp

text \<open>
  Two streams with a line of \<open>MaxScanTokenSize\<close> bytes: as the first line it gives
  \<open>io.ErrUnexpectedEOF\<close>, and right after the header it gives \<open>(false, nil)\<close> although
  a matching row follows.
\<close>

theorem mptcpTableReaderLinux_long_line_witness:
  "mptcpTableReaderLinux \<lparr>rdata = replicate MaxScanTokenSize (CHR ''x''), rerr = None\<rparr>
     ''0100007F:0050'' = (False, Some ErrUnexpectedEOF) \<and>
   mptcpTableReaderLinux
     \<lparr>rdata = mptcpTableHeader @ CHR 0x0A # replicate MaxScanTokenSize (CHR ''x'') @ newline @
        rowB @ newline, rerr = None\<rparr>
     ''0100007F:0050'' = (False, None)"
proof -
  have l: "MaxScanTokenSize \<le>
      length (takeWhile (\<lambda>b. b \<noteq> CHR 0x0A) (replicate MaxScanTokenSize (CHR ''x'') @ z))" for z
  proof -
    have "takeWhile (\<lambda>b. b \<noteq> CHR 0x0A) (replicate MaxScanTokenSize (CHR ''x'') @ z) =
        replicate MaxScanTokenSize (CHR ''x'') @ takeWhile (\<lambda>b. b \<noteq> CHR 0x0A) z"
      by (intro takeWhile_append2) simp
    then show ?thesis
      by simp
  qed
  have 1: "mptcpTableReaderLinux \<lparr>rdata = replicate MaxScanTokenSize (CHR ''x''), rerr = None\<rparr>
      ''0100007F:0050'' = (False, Some ErrUnexpectedEOF)"
    using mptcpTableReaderLinux_long_line
      [where r = "\<lparr>rdata = replicate MaxScanTokenSize (CHR ''x''), rerr = None\<rparr>"
         and k = "''0100007F:0050''"] l [of "[]"]
    by simp
  have 2: "mptcpTableReaderLinux
      \<lparr>rdata = mptcpTableHeader @ CHR 0x0A # replicate MaxScanTokenSize (CHR ''x'') @ newline @
         rowB @ newline, rerr = None\<rparr>
      ''0100007F:0050'' = (False, None)"
    using mptcpTableReaderLinux_long_line
      [where r = "\<lparr>rdata = mptcpTableHeader @ CHR 0x0A # replicate MaxScanTokenSize (CHR ''x'') @
         newline @ rowB @ newline, rerr = None\<rparr>"
         and k = "''0100007F:0050''"
         and rest = "replicate MaxScanTokenSize (CHR ''x'') @ newline @ rowB @ newline"]
      l [of "newline @ rowB @ newline"]
    by simp
  from 1 2 show ?thesis
    by simp
qed

text \<open>
  How far the defect recorded under C3 reaches: the result of the table scanner does
  not depend on how the reader ends, and an error of the operating system is never
  returned.
\<close>

lemma mptcpTableReaderLinux_ignores_reader_end:
  "mptcpTableReaderLinux \<lparr>rdata = d, rerr = Some e\<rparr> k =
     mptcpTableReaderLinux \<lparr>rdata = d, rerr = None\<rparr> k \<and>
   snd (mptcpTableReaderLinux \<lparr>rdata = d, rerr = Some (OSError x)\<rparr> k) \<noteq> Some (OSError x) \<and>
   (scannerLines (NewScanner \<lparr>rdata = d, rerr = Some e\<rparr>) = mptcpTableHeader # rows \<and>
    (\<forall>l \<in> set rows. \<exists>m. newMPTCPTableEntry (Fields l) = Inr m \<and> RemoteAddr m \<noteq> k) \<longrightarrow>
      mptcpTableReaderLinux \<lparr>rdata = d, rerr = Some e\<rparr> k = (False, None))"
proof (intro conjI impI)
  show "mptcpTableReaderLinux \<lparr>rdata = d, rerr = Some e\<rparr> k =
     mptcpTableReaderLinux \<lparr>rdata = d, rerr = None\<rparr> k"
    by (simp add: mptcpTableReaderLinux_lines scannerLines_reader [of d "Some e"])
next
  show "snd (mptcpTableReaderLinux \<lparr>rdata = d, rerr = Some (OSError x)\<rparr> k) \<noteq> Some (OSError x)"
    by (simp add: mptcpTableReaderLinux_lines rowsResult_no_OSError split: list.splits)
next
  assume a: "scannerLines (NewScanner \<lparr>rdata = d, rerr = Some e\<rparr>) = mptcpTableHeader # rows \<and>
    (\<forall>l \<in> set rows. \<exists>m. newMPTCPTableEntry (Fields l) = Inr m \<and> RemoteAddr m \<noteq> k)"
  then have "rowsResult rows k = (False, None)"
    by (intro rowsResult_none) simp
  with a show "mptcpTableReaderLinux \<lparr>rdata = d, rerr = Some e\<rparr> k = (False, None)"
    by (auto simp: mptcpTableReaderLinux_lines)
qed

end
